theory Spec2Isabelle
  imports Main "HOL-Library.Sublist"
begin

section \<open>JavaScript strings\<close>

text \<open>
  A JavaScript string is a sequence of UTF-16 code units. The model uses \<open>string\<close>
  (a \<open>char list\<close>) and reads a \<open>char\<close> as a code unit below 256 (the Latin-1 range).
  The literals that the functions below read (the labels, the template, the prompts, the
  fallback reply) are ASCII; the greeting of the chat screen holds a dash outside that range
  (U+2014) and is read by none of them. \<open>s.length\<close> is \<open>length s\<close>, template
  interpolation and \<open>+\<close> are \<open>@\<close>, \<open>s.startsWith(p)\<close> is \<open>prefix p s\<close>.
\<close>

type_synonym jsstring = string

text \<open>
  \<open>String.prototype.trim\<close> removes WhiteSpace and LineTerminator code units from both
  ends. Below 256 these are TAB, LF, VT, FF, CR, SPACE and NBSP.
\<close>

definition isWhiteSpace :: "char \<Rightarrow> bool" where
  "isWhiteSpace c = ((of_char c :: nat) \<in> set [9, 10, 11, 12, 13, 32, 160])"

definition trimStart :: "jsstring \<Rightarrow> jsstring" where
  "trimStart s = dropWhile isWhiteSpace s"

definition trimEnd :: "jsstring \<Rightarrow> jsstring" where
  "trimEnd s = rev (dropWhile isWhiteSpace (rev s))"

definition trim :: "jsstring \<Rightarrow> jsstring" where
  "trim s = trimEnd (trimStart s)"

text \<open>
  \<open>s.indexOf(pat)\<close>: the least index at which \<open>pat\<close> occurs in \<open>s\<close>; JavaScript's
  \<open>-1\<close> is \<open>None\<close>. \<open>s.includes(pat)\<close> is \<open>s.indexOf(pat) !== -1\<close>
  (named \<open>includesStr\<close>, since \<open>includes\<close> is reserved).
\<close>

fun indexOf :: "jsstring \<Rightarrow> jsstring \<Rightarrow> nat option" where
  "indexOf [] pat = (if pat = [] then Some 0 else None)"
| "indexOf (c # cs) pat =
     (if prefix pat (c # cs) then Some 0 else map_option Suc (indexOf cs pat))"

definition includesStr :: "jsstring \<Rightarrow> jsstring \<Rightarrow> bool" where
  "includesStr s pat = (indexOf s pat \<noteq> None)"

text \<open>
  \<open>GetSubstitution\<close> of ECMA-262 for a string pattern (no captures): in the replacement
  text \<open>$$\<close> stands for \<open>$\<close>, \<open>$&\<close> for the matched text, \<open>$\<close> followed by a
  backquote for the text before the match and \<open>$\<close> followed by an apostrophe for the
  text after it; every other \<open>$\<close> is literal.
\<close>

fun getSubstitution :: "jsstring \<Rightarrow> jsstring \<Rightarrow> nat \<Rightarrow> jsstring \<Rightarrow> jsstring" where
  "getSubstitution matched str position [] = []"
| "getSubstitution matched str position [c] = [c]"
| "getSubstitution matched str position (c # d # rest) =
     (if c = CHR ''$'' \<and> d = CHR ''$'' then
        CHR ''$'' # getSubstitution matched str position rest
      else if c = CHR ''$'' \<and> d = CHR ''&'' then
        matched @ getSubstitution matched str position rest
      else if c = CHR ''$'' \<and> d = CHR 0x60 then
        take position str @ getSubstitution matched str position rest
      else if c = CHR ''$'' \<and> d = CHR 0x27 then
        drop (position + length matched) str @ getSubstitution matched str position rest
      else c # getSubstitution matched str position (d # rest))"

text \<open>
  The four two-character patterns that \<open>getSubstitution\<close> expands:
  \<^verbatim>\<open>$$\<close>, \<^verbatim>\<open>$&\<close>, \<^verbatim>\<open>$\<close> with a backquote and \<^verbatim>\<open>$\<close> with an apostrophe.
\<close>

definition dollarPatterns :: "jsstring list" where
  "dollarPatterns = [''$$'', ''$&'', [CHR ''$'', CHR 0x60], [CHR ''$'', CHR 0x27]]"

text \<open>
  \<open>s.replace(pat, replacement)\<close> with a string pattern: only the first occurrence is
  replaced, and the replacement text is expanded by \<open>getSubstitution\<close>.
\<close>

definition replace :: "jsstring \<Rightarrow> jsstring \<Rightarrow> jsstring \<Rightarrow> jsstring" where
  "replace s pat replacement =
     (case indexOf s pat of
        None \<Rightarrow> s
      | Some i \<Rightarrow> take i s @ getSubstitution pat s i replacement @ drop (i + length pat) s)"

text \<open>\<open>xs.join(sep)\<close> on an array of strings.\<close>

fun join :: "jsstring \<Rightarrow> jsstring list \<Rightarrow> jsstring" where
  "join sep [] = []"
| "join sep [x] = x"
| "join sep (x # y # ys) = x @ sep @ join sep (y # ys)"

section \<open>The regular expression of the field extractor\<close>

text \<open>
  \<open>generateFIRAndShare\<close> builds, for each section label,
  \<^verbatim>\<open>new RegExp(`${section}:[\\s\\S]*?(?=(${sections.join('|')}:|$))`, 'i')\<close>.
  The labels hold letters and spaces only, so the pattern is: the literal
  \<open>section:\<close>, then a lazy run of arbitrary code units, then a lookahead whose group is
  the text \<open>sections.join('|')\<close> followed by \<open>:|$\<close>.
\<close>

definition sections :: "jsstring list" where
  "sections =
     [''Complainant Details'',
      ''Incident Details'',
      ''Accused Details'',
      ''Witness Details'',
      ''Evidence Details'',
      ''IPC Sections'']"

definition lookaheadSource :: jsstring where
  "lookaheadSource = join ''|'' sections @ '':|$''"

text \<open>
  In a regular expression \<open>|\<close> binds weakest: the alternatives of a group are the
  pieces of its source between the bars.
\<close>

fun splitBar :: "jsstring \<Rightarrow> jsstring list" where
  "splitBar [] = [[]]"
| "splitBar (c # cs) =
     (if c = CHR ''|'' then [] # splitBar cs
      else (case splitBar cs of a # as \<Rightarrow> (c # a) # as | [] \<Rightarrow> [[c]]))"

definition alternatives :: "jsstring list" where
  "alternatives = splitBar lookaheadSource"

text \<open>
  With the \<open>i\<close> flag (and no \<open>u\<close> flag) two code units match when their
  canonicalizations are equal. Canonicalize maps a code unit to its upper case, and never
  maps a code unit from 128 on to one below 128; all pattern characters here are ASCII, so
  only the folding of \<open>a\<close>..\<open>z\<close> can make a text character match.
\<close>

definition canonicalize :: "char \<Rightarrow> char" where
  "canonicalize c =
     (case map_of (zip ''abcdefghijklmnopqrstuvwxyz'' ''ABCDEFGHIJKLMNOPQRSTUVWXYZ'') c of
        Some u \<Rightarrow> u
      | None \<Rightarrow> c)"

text \<open>
  A sequence of pattern characters matched against the text that starts at the current
  position: \<open>$\<close> is the end-of-input assertion (the \<open>m\<close> flag is absent) and
  consumes nothing, every other character here is a literal.
\<close>

fun matchSeq :: "jsstring \<Rightarrow> jsstring \<Rightarrow> bool" where
  "matchSeq [] s = True"
| "matchSeq (p # ps) s =
     (if p = CHR ''$'' then s = [] \<and> matchSeq ps s
      else (case s of
              [] \<Rightarrow> False
            | c # cs \<Rightarrow> canonicalize p = canonicalize c \<and> matchSeq ps cs))"

text \<open>The lookahead \<open>(?=(...))\<close>: some alternative matches at the current position.\<close>

definition lookahead :: "jsstring \<Rightarrow> bool" where
  "lookahead s = list_ex (\<lambda>alt. matchSeq alt s) alternatives"

text \<open>
  The lazy run \<open>[\s\S]*?\<close> followed by the lookahead: the shortest prefix of the text
  after which the lookahead succeeds (\<open>[\s\S]\<close> accepts every code unit).
\<close>

fun lazyRun :: "jsstring \<Rightarrow> jsstring option" where
  "lazyRun [] = (if lookahead [] then Some [] else None)"
| "lazyRun (c # cs) =
     (if lookahead (c # cs) then Some [] else map_option ((#) c) (lazyRun cs))"

text \<open>
  One attempt of the whole pattern at the current position: the matched text. The
  literal \<open>section:\<close> holds no \<open>$\<close>, so it consumes as many code units as it has
  characters.
\<close>

definition matchHere :: "jsstring \<Rightarrow> jsstring \<Rightarrow> jsstring option" where
  "matchHere section s =
     (let lit = section @ '':'' in
      if matchSeq lit s
      then map_option ((@) (take (length lit) s)) (lazyRun (drop (length lit) s))
      else None)"

text \<open>
  \<open>contentText.match(regex)\<close> without the \<open>g\<close> flag: the attempt at the leftmost
  position that succeeds; the result is \<open>match[0]\<close>, and \<open>null\<close> is \<open>None\<close>.
\<close>

fun regexMatch :: "jsstring \<Rightarrow> jsstring \<Rightarrow> jsstring option" where
  "regexMatch section [] = matchHere section []"
| "regexMatch section (c # cs) =
     (case matchHere section (c # cs) of
        Some m \<Rightarrow> Some m
      | None \<Rightarrow> regexMatch section cs)"

section \<open>Field extraction\<close>

text \<open>The body of the \<open>sections.map\<close> callback up to \<open>content\<close>.\<close>

definition extractContent :: "jsstring \<Rightarrow> jsstring \<Rightarrow> jsstring" where
  "extractContent contentText section =
     (case regexMatch section contentText of
        Some m \<Rightarrow> trim (replace m (section @ '':'') [])
      | None \<Rightarrow> ''Information not provided'')"

text \<open>The label/content pairs the callback computes, one per element of \<open>sections\<close>.\<close>

definition extractSections :: "jsstring \<Rightarrow> (jsstring \<times> jsstring) list" where
  "extractSections contentText = map (\<lambda>section. (section, extractContent contentText section)) sections"

text \<open>The markup block the callback returns for one label and its content.\<close>

definition sectionBlock :: "jsstring \<Rightarrow> jsstring \<Rightarrow> jsstring" where
  \<open>sectionBlock section content =
     ''\<newline>          <div class="section">\<newline>            <div class="section-title">'' @ section @
     ''</div>\<newline>            <div>'' @ content @
     ''</div>\<newline>          </div>''\<close>

text \<open>\<open>structuredContent\<close>: the blocks of all sections, joined with the empty string.\<close>

definition structuredContent :: "jsstring \<Rightarrow> jsstring" where
  "structuredContent contentText =
     join [] (map (\<lambda>(section, content). sectionBlock section content) (extractSections contentText))"

section \<open>Occurrences, for stating the properties\<close>

text \<open>
  \<open>occursCI pat s\<close>: the text \<open>s\<close> has a substring that equals \<open>pat\<close> up to the
  case of ASCII letters.
\<close>

definition occursCI :: "jsstring \<Rightarrow> jsstring \<Rightarrow> bool" where
  "occursCI pat s = sublist (map canonicalize pat) (map canonicalize s)"

section \<open>Document assembly\<close>

text \<open>The constant \<open>FIR_TEMPLATE\<close>, one list element per source line.\<close>

definition FIR_TEMPLATE :: jsstring where
  \<open>FIR_TEMPLATE = concat
    [''\<newline>'',
     ''<!DOCTYPE html>\<newline>'',
     ''<html>\<newline>'',
     ''<head>\<newline>'',
     ''<style>\<newline>'',
     ''  body { font-family: Arial, sans-serif; line-height: 1.6; padding: 40px; }\<newline>'',
     ''  .header { text-align: center; margin-bottom: 30px; }\<newline>'',
     ''  .section { margin: 20px 0; }\<newline>'',
     ''  .section-title { font-weight: bold; margin-bottom: 10px; }\<newline>'',
     ''  .footer { margin-top: 40px; }\<newline>'',
     ''  .signature-line { margin-top: 20px; border-top: 1px solid #000; width: 200px; }\<newline>'',
     ''</style>\<newline>'',
     ''</head>\<newline>'',
     ''<body>\<newline>'',
     ''  <div class="header">\<newline>'',
     ''    <h2>FIRST INFORMATION REPORT</h2>\<newline>'',
     ''    <p>(Under Section 154 Cr.P.C)</p>\<newline>'',
     ''  </div>\<newline>'',
     ''  {{CONTENT}}\<newline>'',
     ''  <div class="footer">\<newline>'',
     ''    <div style="float:left">\<newline>'',
     ''      <p>Date: {{DATE}}</p>\<newline>'',
     ''      <p class="signature-line">Signature of Complainant</p>\<newline>'',
     ''    </div>\<newline>'',
     ''    <div style="float:right">\<newline>'',
     ''      <p class="signature-line">Signature of Officer</p>\<newline>'',
     ''    </div>\<newline>'',
     ''  </div>\<newline>'',
     ''</body>\<newline>'',
     ''</html>'']\<close>

text \<open>
  \<open>formattedHtml\<close>: the template with its two placeholders replaced, first
  \<open>{{CONTENT}}\<close> by the section blocks, then \<open>{{DATE}}\<close> by the text of
  \<open>new Date().toLocaleDateString('en-IN')\<close>, which is a parameter of the model.
\<close>

definition formattedHtml :: "jsstring \<Rightarrow> jsstring \<Rightarrow> jsstring" where
  "formattedHtml contentText date =
     replace (replace FIR_TEMPLATE ''{{CONTENT}}'' (structuredContent contentText)) ''{{DATE}}'' date"

text \<open>
  The three parts of the template around its placeholders (\<open>FIR_TEMPLATE_parts\<close>
  below), used to state what the assembled document is.
\<close>

definition templateHead :: jsstring where
  \<open>templateHead = concat
    [''\<newline>'',
     ''<!DOCTYPE html>\<newline>'',
     ''<html>\<newline>'',
     ''<head>\<newline>'',
     ''<style>\<newline>'',
     ''  body { font-family: Arial, sans-serif; line-height: 1.6; padding: 40px; }\<newline>'',
     ''  .header { text-align: center; margin-bottom: 30px; }\<newline>'',
     ''  .section { margin: 20px 0; }\<newline>'',
     ''  .section-title { font-weight: bold; margin-bottom: 10px; }\<newline>'',
     ''  .footer { margin-top: 40px; }\<newline>'',
     ''  .signature-line { margin-top: 20px; border-top: 1px solid #000; width: 200px; }\<newline>'',
     ''</style>\<newline>'',
     ''</head>\<newline>'',
     ''<body>\<newline>'',
     ''  <div class="header">\<newline>'',
     ''    <h2>FIRST INFORMATION REPORT</h2>\<newline>'',
     ''    <p>(Under Section 154 Cr.P.C)</p>\<newline>'',
     ''  </div>\<newline>'',
     ''  '']\<close>

definition templateMiddle :: jsstring where
  \<open>templateMiddle = concat
    [''\<newline>'',
     ''  <div class="footer">\<newline>'',
     ''    <div style="float:left">\<newline>'',
     ''      <p>Date: '']\<close>

definition templateTail :: jsstring where
  \<open>templateTail = concat
    [''</p>\<newline>'',
     ''      <p class="signature-line">Signature of Complainant</p>\<newline>'',
     ''    </div>\<newline>'',
     ''    <div style="float:right">\<newline>'',
     ''      <p class="signature-line">Signature of Officer</p>\<newline>'',
     ''    </div>\<newline>'',
     ''  </div>\<newline>'',
     ''</body>\<newline>'',
     ''</html>'']\<close>

section \<open>Legal Rights Guide: the search\<close>

text \<open>
  \<open>ipc.json\<close> and \<open>pwdva.json\<close> are not part of the sources; the screen reads the
  fields \<open>title\<close>, \<open>description\<close> and \<open>section\<close> of their rows, so the two
  tables are parameters of the model, with rows of these three string fields (the field
  \<open>section\<close> is named \<open>sectionNo\<close>, \<open>section\<close> being reserved). \<open>allData\<close>
  gives every row its \<open>source\<close>.
\<close>

record lawRow =
  title :: jsstring
  description :: jsstring
  sectionNo :: jsstring

record lawEntry = lawRow +
  source :: jsstring

definition withSource :: "jsstring \<Rightarrow> lawRow \<Rightarrow> lawEntry" where
  "withSource src r =
     \<lparr>title = title r, description = description r, sectionNo = sectionNo r, source = src\<rparr>"

definition allData :: "lawRow list \<Rightarrow> lawRow list \<Rightarrow> lawEntry list" where
  "allData ipcData pwdvaData =
     map (withSource ''IPC'') ipcData @ map (withSource ''PWDVA'') pwdvaData"

text \<open>
  \<open>String.prototype.toLowerCase\<close> on code units below 256: \<open>A\<close>..\<open>Z\<close> and the
  Latin-1 capitals 192..222 (but the multiplication sign 215) move up by 32; every other
  code unit stays.
\<close>

definition toLowerCaseUnit :: "char \<Rightarrow> char" where
  "toLowerCaseUnit c =
     (case map_of (zip ''ABCDEFGHIJKLMNOPQRSTUVWXYZ'' ''abcdefghijklmnopqrstuvwxyz'') c of
        Some l \<Rightarrow> l
      | None \<Rightarrow>
          if 192 \<le> (of_char c :: nat) \<and> (of_char c :: nat) \<le> 222 \<and> (of_char c :: nat) \<noteq> 215
          then char_of ((of_char c :: nat) + 32) else c)"

definition toLowerCase :: "jsstring \<Rightarrow> jsstring" where
  "toLowerCase s = map toLowerCaseUnit s"

text \<open>
  The state of the screen that \<open>handleSearch\<close> reads and writes. \<open>fadeIn\<close> resets
  the opacity \<open>fadeAnim\<close> to 0 and starts an animation towards 1 over 500 ms; the
  model records the reset value and the animations started (target, duration).
\<close>

record guideState =
  query :: jsstring
  results :: "lawEntry list"
  selectedLaw :: "lawEntry option"
  showSuggestions :: bool
  fadeAnim :: nat
  animations :: "(nat \<times> nat) list"

definition fadeIn :: "guideState \<Rightarrow> guideState" where
  "fadeIn st = st\<lparr>fadeAnim := 0, animations := animations st @ [(1, 500)]\<rparr>"

definition handleSearch :: "lawRow list \<Rightarrow> lawRow list \<Rightarrow> guideState \<Rightarrow> guideState" where
  "handleSearch ipcData pwdvaData st =
     (let lowerQuery = toLowerCase (query st);
          filtered = filter
            (\<lambda>item. includesStr (toLowerCase (title item)) lowerQuery \<or>
                    includesStr (toLowerCase (description item)) lowerQuery)
            (allData ipcData pwdvaData)
      in fadeIn (st\<lparr>results := filtered, showSuggestions := False\<rparr>))"

section \<open>Legal Assistant: the chat screen\<close>

text \<open>
  The handlers of the screen are asynchronous functions that await remote services in
  sequence. The model threads the state of the screen and the log of the external effects
  through each step; a step returns \<open>Inl\<close> of the thrown value or \<open>Inr\<close> of its
  result. What a remote service answers is a parameter (\<open>services\<close>).
\<close>

datatype exn = Error jsstring

text \<open>
  A turn of the transcript, \<open>{role, text}\<close>, and an item of the search results,
  \<open>{title, link, snippet}\<close>. The fields \<open>text\<close> and \<open>title\<close> are named
  \<open>msgText\<close> and \<open>itemTitle\<close> (\<open>text\<close> is reserved, \<open>title\<close> is a field of the
  rows above).
\<close>

record message =
  role :: jsstring
  msgText :: jsstring

record searchItem =
  itemTitle :: jsstring
  link :: jsstring
  snippet :: jsstring

text \<open>
  \<open>metadata\<close> is \<open>{}\<close> (\<open>None\<close>) or \<open>{sources: results}\<close>, where
  \<open>results\<close> is \<open>null\<close> or the list of items.
\<close>

type_synonym metadata = "searchItem list option option"

datatype event =
    SupabaseInsert jsstring jsstring metadata
  | ConsoleWarn jsstring
  | GenerateContent jsstring
  | SerpFetch jsstring
  | PrintToFile jsstring
  | ShareAsync jsstring
  | AlertShown jsstring jsstring

text \<open>
  The state of the screen (\<open>useState\<close>) and the external effects performed so far,
  oldest first.
\<close>

record chat =
  messages :: "message list"
  inputText :: jsstring
  isLoading :: bool
  effects :: "event list"

text \<open>
  The services: whether the keys are configured, and what the remote calls answer.
  \<open>generateContent n prompt\<close> is the text that the call number \<open>n\<close> (counted from
  0 over the session) to the generation service yields for \<open>prompt\<close>, after line 167
  has read it out of the response, or the value thrown. \<open>serpSearch query\<close> is the
  \<open>organic_results\<close> of the search response (\<open>None\<close> when the field is missing), or
  the value thrown by \<open>fetch\<close> or \<open>json\<close>. \<open>today k\<close> is the text that
  \<open>new Date().toLocaleDateString('en-IN')\<close> yields when the clock is read after
  \<open>k\<close> external effects of the session: the clock is read anew in every run, and two
  runs may see two dates.
\<close>

record services =
  geminiConfigured :: bool
  generateContent :: "nat \<Rightarrow> jsstring \<Rightarrow> exn + jsstring"
  serpKeyConfigured :: bool
  serpSearch :: "jsstring \<Rightarrow> exn + searchItem list option"
  supabaseInsert :: "jsstring \<Rightarrow> jsstring \<Rightarrow> metadata \<Rightarrow> exn + unit"
  printToFileAsync :: "jsstring \<Rightarrow> exn + jsstring"
  shareAsync :: "jsstring \<Rightarrow> exn + unit"
  platformOS :: jsstring
  today :: "nat \<Rightarrow> jsstring"

type_synonym 'a action = "chat \<Rightarrow> (exn + 'a) \<times> chat"

definition ret :: "'a \<Rightarrow> 'a action" where
  "ret x = (\<lambda>w. (Inr x, w))"

definition throw :: "exn \<Rightarrow> 'a action" where
  "throw e = (\<lambda>w. (Inl e, w))"

text \<open>Sequencing (\<open>await\<close> and \<open>;\<close>): a thrown value skips the rest.\<close>

definition andThen :: "'a action \<Rightarrow> ('a \<Rightarrow> 'b action) \<Rightarrow> 'b action" where
  "andThen m f = (\<lambda>w. case m w of (Inl e, w') \<Rightarrow> (Inl e, w') | (Inr x, w') \<Rightarrow> f x w')"

definition tryCatch :: "'a action \<Rightarrow> (exn \<Rightarrow> 'a action) \<Rightarrow> 'a action" where
  "tryCatch m handler = (\<lambda>w. case m w of (Inl e, w') \<Rightarrow> handler e w' | (Inr x, w') \<Rightarrow> (Inr x, w'))"

definition tryFinally :: "'a action \<Rightarrow> unit action \<Rightarrow> 'a action" where
  "tryFinally m finalizer =
     (\<lambda>w. case m w of (r, w') \<Rightarrow>
        (case finalizer w' of (Inl e, w'') \<Rightarrow> (Inl e, w'') | (Inr u, w'') \<Rightarrow> (r, w'')))"

definition emit :: "event \<Rightarrow> unit action" where
  "emit ev = (\<lambda>w. (Inr (), w\<lparr>effects := effects w @ [ev]\<rparr>))"

text \<open>An external call: it is logged, and answers what the services say.\<close>

definition call :: "event \<Rightarrow> (exn + 'a) \<Rightarrow> 'a action" where
  "call ev answer = (\<lambda>w. (answer, w\<lparr>effects := effects w @ [ev]\<rparr>))"

definition setMessages :: "(message list \<Rightarrow> message list) \<Rightarrow> unit action" where
  "setMessages f = (\<lambda>w. (Inr (), w\<lparr>messages := f (messages w)\<rparr>))"

definition setInputText :: "jsstring \<Rightarrow> unit action" where
  "setInputText s = (\<lambda>w. (Inr (), w\<lparr>inputText := s\<rparr>))"

definition setIsLoading :: "bool \<Rightarrow> unit action" where
  "setIsLoading b = (\<lambda>w. (Inr (), w\<lparr>isLoading := b\<rparr>))"

definition SYSTEM_PROMPT :: jsstring where
  \<open>SYSTEM_PROMPT = concat
    [''You are a trauma-informed legal assistant focused on domestic violence in India. Your role has two phases:\<newline>'',
     ''\<newline>'',
     ''PHASE 1 - Information Gathering:\<newline>'',
     ''- Ask essential questions in a compassionate, step-by-step way\<newline>'',
     ''- Required fields: victim name, age, contact, incident date/time/place, brief chronology\<newline>'',
     ''- Optional fields: witness details, evidence details, medical reports\<newline>'',
     ''- Clarify unclear details gently\<newline>'',
     ''- When suggesting IPC sections, if unsure say "NEEDS_SEARCH"\<newline>'',
     ''\<newline>'',
     ''PHASE 2 - FIR Creation (when you have sufficient info):\<newline>'',
     ''- Signal readiness by saying "I have enough information to prepare the FIR draft."\<newline>'',
     ''- If user requests FIR or if you have all essential details, begin compiling\<newline>'',
     ''- Present your final response before PDF creation clearly marked with "READY_FOR_FIR"\<newline>'',
     ''\<newline>'',
     ''Always maintain trauma-informed, empathetic communication while gathering facts systematically.'']\<close>

definition saveInteraction :: "services \<Rightarrow> jsstring \<Rightarrow> jsstring \<Rightarrow> metadata \<Rightarrow> unit action" where
  "saveInteraction sv r message md =
     tryCatch
       (call (SupabaseInsert r message md) (supabaseInsert sv r message md))
       (\<lambda>e. emit (ConsoleWarn ''Supabase insert failed''))"

text \<open>
  \<open>querySerpApiForIPC\<close>: \<open>null\<close> (\<open>None\<close>) without a key or on an error, else
  the first five results.
\<close>

definition querySerpApiForIPC :: "services \<Rightarrow> jsstring \<Rightarrow> searchItem list option action" where
  "querySerpApiForIPC sv q =
     (if \<not> serpKeyConfigured sv then ret None
      else tryCatch
        (andThen (call (SerpFetch q) (serpSearch sv q))
           (\<lambda>organic_results. ret (Some (take 5 (case organic_results of None \<Rightarrow> [] | Some rs \<Rightarrow> rs)))))
        (\<lambda>err. andThen (emit (ConsoleWarn ''SerpAPI error'')) (\<lambda>u. ret None)))"

text \<open>
  The value that \<open>querySerpApiForIPC\<close> returns, read off its three \<open>return\<close>
  statements (lines 148, 155 and 158); the handler never throws.
\<close>

definition searchResults :: "services \<Rightarrow> jsstring \<Rightarrow> searchItem list option" where
  "searchResults sv q =
     (if \<not> serpKeyConfigured sv then None
      else case serpSearch sv q of
             Inl err \<Rightarrow> None
           | Inr organic_results \<Rightarrow>
               Some (take 5 (case organic_results of None \<Rightarrow> [] | Some rs \<Rightarrow> rs)))"

text \<open>The number of calls to the generation service so far.\<close>

definition generateCalls :: "event list \<Rightarrow> nat" where
  "generateCalls evs = length (filter (\<lambda>ev. case ev of GenerateContent p \<Rightarrow> True | _ \<Rightarrow> False) evs)"

definition callGemini :: "services \<Rightarrow> jsstring \<Rightarrow> jsstring action" where
  "callGemini sv prompt =
     (if \<not> geminiConfigured sv then throw (Error ''Gemini not configured'')
      else (\<lambda>w. call (GenerateContent prompt)
                  (generateContent sv (generateCalls (effects w)) prompt) w))"

definition chatPrompt :: "jsstring \<Rightarrow> jsstring" where
  "chatPrompt userText =
     SYSTEM_PROMPT @ ''\<newline>\<newline>User: '' @ userText @ ''\<newline>Assistant:''"

definition sourcePrompt :: "jsstring \<Rightarrow> jsstring \<Rightarrow> jsstring" where
  "sourcePrompt sourceSummary userText =
     SYSTEM_PROMPT @ ''\<newline>\<newline>Sources:\<newline>'' @ sourceSummary @
     ''\<newline>\<newline>User: '' @ userText @ ''\<newline>Assistant:''"

definition fallbackReply :: jsstring where
  "fallbackReply =
     ''I am having trouble reaching the helper service right now. Please try again shortly.''"

text \<open>
  \<open>sourceSummary\<close> (line 197) of the search results \<open>found\<close> (\<open>results\<close> is a
  field of the guide's state above): one line \<open>title - link\<close> for each result, nothing
  for \<open>null\<close>.
\<close>

definition sourceSummary :: "searchItem list option \<Rightarrow> jsstring" where
  "sourceSummary found =
     join ''\<newline>''
       (map (\<lambda>r. itemTitle r @ '' - '' @ link r)
          (case found of None \<Rightarrow> [] | Some rs \<Rightarrow> rs))"

text \<open>
  The body of the \<open>if\<close> on \<open>NEEDS_SEARCH\<close>: the search, then the second call to the
  generation service, whose failure leaves the first reply in place. It yields the reply
  and the metadata.
\<close>

definition reevaluate :: "services \<Rightarrow> jsstring \<Rightarrow> jsstring \<Rightarrow> (jsstring \<times> metadata) action" where
  "reevaluate sv userText aiReply =
     andThen (querySerpApiForIPC sv (userText @ '' IPC relevant sections domestic violence India''))
       (\<lambda>results.
          andThen
            (tryCatch (callGemini sv (sourcePrompt (sourceSummary results) userText))
               (\<lambda>e. andThen (emit (ConsoleWarn ''Gemini re-eval failed'')) (\<lambda>u. ret aiReply)))
            (\<lambda>reply. ret (reply, Some results)))"

definition handleSend :: "services \<Rightarrow> unit action" where
  "handleSend sv = (\<lambda>w0.
     if trim (inputText w0) = [] then ret () w0
     else
       (let userText = trim (inputText w0);
            userMsg = \<lparr>role = ''user'', msgText = userText\<rparr>
        in andThen (setMessages (\<lambda>prev. prev @ [userMsg])) (\<lambda>u.
           andThen (setInputText []) (\<lambda>u.
           andThen (saveInteraction sv ''user'' userText None) (\<lambda>u.
           andThen (setIsLoading True) (\<lambda>u.
           tryFinally
             (andThen
                (tryCatch (callGemini sv (chatPrompt userText))
                   (\<lambda>err. andThen (emit (ConsoleWarn ''Gemini call failed'')) (\<lambda>u. ret fallbackReply)))
                (\<lambda>aiReply.
                 andThen
                   (if aiReply \<noteq> [] \<and> includesStr aiReply ''NEEDS_SEARCH''
                    then reevaluate sv userText aiReply
                    else ret (aiReply, None))
                   (\<lambda>(aiReply, md).
                    andThen (setMessages (\<lambda>prev. prev @ [\<lparr>role = ''assistant'', msgText = aiReply\<rparr>])) (\<lambda>u.
                    saveInteraction sv ''assistant'' aiReply md))))
             (setIsLoading False)))))) w0)"

definition convoText :: "message list \<Rightarrow> jsstring" where
  "convoText ms =
     join ''\<newline>''
       (map (\<lambda>m. (if role m = ''user'' then ''User'' else ''Assistant'') @ '': '' @ msgText m) ms)"

definition extractPrompt :: "message list \<Rightarrow> jsstring" where
  \<open>extractPrompt ms = concat
    [''\<newline>'',
     ''      Extract structured FIR information from the conversation below. Format as sections:\<newline>'',
     ''      \<newline>'',
     ''      Complainant Details: [Name, Age, Contact, Address]\<newline>'',
     ''      Incident Details: [Date, Time, Place, Detailed description of incident]\<newline>'',
     ''      Accused Details: [Name(s), Relationship to victim, Description]\<newline>'',
     ''      Witness Details: [Names and contact info if available]\<newline>'',
     ''      Evidence Details: [Any physical evidence, medical reports, photos, etc.]\<newline>'',
     ''      IPC Sections: [Relevant sections with brief explanations]\<newline>'',
     ''\<newline>'',
     ''      Format each section clearly. If any section lacks information, note as "Information not provided."\<newline>'',
     ''\<newline>'',
     ''      Conversation:\<newline>'',
     ''      ''] @ convoText ms @ concat
    [''\<newline>'',
     ''    '']\<close>

text \<open>
  \<open>new Date().toLocaleDateString('en-IN')\<close> (line 263): the clock is read when the
  line is reached.
\<close>

definition localeDateString :: "services \<Rightarrow> jsstring action" where
  "localeDateString sv = (\<lambda>w. (Inr (today sv (length (effects w))), w))"

text \<open>
  \<open>generateFIRAndShare\<close> reads \<open>messages\<close> as they are when the handler starts.
\<close>

definition generateFIRAndShare :: "services \<Rightarrow> unit action" where
  "generateFIRAndShare sv = (\<lambda>w0.
     andThen (setIsLoading True) (\<lambda>u.
     tryFinally
       (tryCatch
          (andThen (callGemini sv (extractPrompt (messages w0))) (\<lambda>contentText.
           andThen (localeDateString sv) (\<lambda>date.
           andThen (call (PrintToFile (formattedHtml contentText date))
                      (printToFileAsync sv (formattedHtml contentText date))) (\<lambda>uri.
           if platformOS sv = ''android'' \<or> platformOS sv = ''ios''
           then call (ShareAsync uri) (shareAsync sv uri)
           else emit (AlertShown ''FIR PDF saved'' (''File: '' @ uri))))))
          (\<lambda>err. andThen (emit (ConsoleWarn ''FIR generation error''))
                    (\<lambda>u. emit (AlertShown ''Error'' ''Could not generate FIR.''))))
       (setIsLoading False)) w0)"


section \<open>Properties of the regular expression\<close>

lemma join_empty_sep: "join [] xs = concat xs"
  by (induction xs rule: induct_list012) simp_all

text \<open>
  Canonicalization by the bits of the code unit: a lower-case ASCII letter loses bit 5.
  The equation serves evaluation only.
\<close>

lemma canonicalize_bits [code]:
  "canonicalize (Char b0 b1 b2 b3 b4 b5 b6 b7) =
     (if b5 \<and> b6 \<and> \<not> b7 \<and> (b0 \<or> b1 \<or> b2 \<or> b3 \<or> b4) \<and> \<not> (b4 \<and> b3 \<and> (b2 \<or> (b1 \<and> b0)))
      then Char b0 b1 b2 b3 b4 False b6 b7 else Char b0 b1 b2 b3 b4 b5 b6 b7)"
  by (cases b7; cases b6; cases b5; simp add: canonicalize_def;
      cases b0; cases b1; cases b2; cases b3; cases b4; simp)

lemma alternatives_eq:
  "alternatives =
     [''Complainant Details'', ''Incident Details'', ''Accused Details'',
      ''Witness Details'', ''Evidence Details'', ''IPC Sections:'', ''$'']"
  by (simp add: alternatives_def lookaheadSource_def sections_def)

text \<open>The equations that evaluate the extraction of a given text by rewriting.\<close>

lemmas extract_eval =
  extractSections_def extractContent_def sections_def matchHere_def lookahead_def
  alternatives_eq canonicalize_bits replace_def trim_def trimStart_def trimEnd_def
  isWhiteSpace_def occursCI_def sublist_Cons_right

lemma lookahead_Nil: "lookahead []"
  by (simp add: lookahead_def alternatives_eq)

text \<open>The end-of-input alternative makes the lazy run succeed on every text.\<close>

lemma lazyRun_total: "\<exists>b. lazyRun s = Some b"
  by (induction s) (auto simp: lookahead_Nil)

lemma matchSeq_prefix:
  "CHR ''$'' \<notin> set ps \<Longrightarrow> matchSeq ps s = prefix (map canonicalize ps) (map canonicalize s)"
  by (induction ps arbitrary: s) (auto split: list.splits)

lemma matchSeq_length: "CHR ''$'' \<notin> set ps \<Longrightarrow> matchSeq ps s \<Longrightarrow> length ps \<le> length s"
  by (induction ps arbitrary: s) (auto split: list.splits)

lemma matchHere_None: "matchHere L s = None \<longleftrightarrow> \<not> matchSeq (L @ '':'') s"
  using lazyRun_total [of "drop (length (L @ '':'')) s"]
  by (auto simp: matchHere_def Let_def)

text \<open>
  The pattern of a label fails on a text exactly when the text has no occurrence of the
  label followed by a colon, in any letter case.
\<close>

lemma regexMatch_None_iff:
  assumes "CHR ''$'' \<notin> set L"
  shows "regexMatch L t = None \<longleftrightarrow> \<not> occursCI (L @ '':'') t"
proof -
  have lit: "CHR ''$'' \<notin> set (L @ '':'')" using assms by simp
  have "regexMatch L t = None \<longleftrightarrow> \<not> sublist (map canonicalize (L @ '':'')) (map canonicalize t)"
  proof (induction t)
    case Nil
    show ?case by (simp add: matchHere_None matchSeq_prefix [OF lit] del: map_append)
  next
    case (Cons c cs)
    have "regexMatch L (c # cs) = None \<longleftrightarrow> matchHere L (c # cs) = None \<and> regexMatch L cs = None"
      by (simp split: option.splits)
    then show ?case
      using Cons by (simp add: matchHere_None matchSeq_prefix [OF lit] sublist_Cons_right del: map_append)
  qed
  then show ?thesis by (simp add: occursCI_def)
qed

lemma sections_shape:
  "list_all (\<lambda>L. CHR ''$'' \<notin> set L \<and>
        \<not> list_ex (\<lambda>p. canonicalize p = canonicalize (CHR ''W'')) (tl (L @ '':''))) sections"
  by code_simp

lemma alternatives_shape:
  "list_all (\<lambda>alt. alt = ''$'' \<or>
       (alt \<noteq> [] \<and> CHR ''$'' \<notin> set alt \<and>
        \<not> list_ex (\<lambda>p. canonicalize p = canonicalize (CHR ''W'')) (tl alt))) alternatives"
  by code_simp

lemma section_no_dollar: "L \<in> set sections \<Longrightarrow> CHR ''$'' \<notin> set L"
  using sections_shape by (auto simp: list_all_iff)

lemma occursCI_colon: "occursCI (L @ '':'') t \<Longrightarrow> occursCI L t"
proof -
  assume "occursCI (L @ '':'') t"
  then have "sublist (map canonicalize L @ map canonicalize '':'') (map canonicalize t)"
    by (simp add: occursCI_def)
  moreover have "sublist (map canonicalize L) (map canonicalize L @ map canonicalize '':'')"
    by (rule sublist_append_rightI)
  ultimately show ?thesis
    unfolding occursCI_def by (rule sublist_order.order_trans [rotated])
qed

section \<open>Properties of the field extraction\<close>

text \<open>
  Claim C1. For every input text the extraction yields exactly one section per label, in
  the fixed order Complainant Details, Incident Details, Accused Details, Witness Details,
  Evidence Details, IPC Sections, whatever labels the text holds and in whatever order; a
  label whose pattern finds no match is present with the content
  \<open>Information not provided\<close>; and \<open>structuredContent\<close> is the concatenation of the
  blocks in that order.
\<close>

theorem extractSections_one_per_label:
  "map fst (extractSections t) =
     [''Complainant Details'', ''Incident Details'', ''Accused Details'',
      ''Witness Details'', ''Evidence Details'', ''IPC Sections'']
   \<and> (\<forall>i < length sections. regexMatch (sections ! i) t = None \<longrightarrow>
          extractSections t ! i = (sections ! i, ''Information not provided''))
   \<and> structuredContent t = concat (map (\<lambda>L. sectionBlock L (extractContent t L)) sections)"
proof -
  have "map fst (extractSections t) = sections"
    by (simp add: extractSections_def comp_def)
  moreover have "\<forall>i < length sections. regexMatch (sections ! i) t = None \<longrightarrow>
          extractSections t ! i = (sections ! i, ''Information not provided'')"
    by (simp add: extractSections_def extractContent_def)
  moreover have "structuredContent t = concat (map (\<lambda>L. sectionBlock L (extractContent t L)) sections)"
    by (simp add: structuredContent_def extractSections_def join_empty_sep comp_def)
  ultimately show ?thesis by (simp add: sections_def)
qed

theorem extractSections_one_per_label_witness:
  "map fst (extractSections ''Incident Details: x Complainant Details: y'') =
     [''Complainant Details'', ''Incident Details'', ''Accused Details'',
      ''Witness Details'', ''Evidence Details'', ''IPC Sections'']
   \<and> extractSections ''Incident Details: x Complainant Details: y'' ! 2 =
       (''Accused Details'', ''Information not provided'')"
proof -
  let ?t = "''Incident Details: x Complainant Details: y''"
  have n: "regexMatch (sections ! 2) ?t = None"
    by (simp add: extract_eval)
  have l: "2 < length sections" "sections ! 2 = ''Accused Details''"
    by (simp_all add: sections_def)
  from extractSections_one_per_label [of ?t]
  have a: "map fst (extractSections ?t) =
      [''Complainant Details'', ''Incident Details'', ''Accused Details'',
       ''Witness Details'', ''Evidence Details'', ''IPC Sections'']"
    and b: "\<forall>i < length sections. regexMatch (sections ! i) ?t = None \<longrightarrow>
          extractSections ?t ! i = (sections ! i, ''Information not provided'')"
    by blast+
  from b l(1) n have "extractSections ?t ! 2 = (sections ! 2, ''Information not provided'')"
    by blast
  with a l(2) show ?thesis by simp
qed

text \<open>
  Claim C2 (the code departs from it). The claim lets only a label followed by a colon
  end the span of a label. In the pattern the colon belongs to the last alternative
  alone (\<open>alternatives_eq\<close>), so the bare words \<open>Witness Details\<close> end the span of
  Complainant Details: the extracted content is \<open>met\<close>, not
  \<open>met Witness Details officer\<close>, although no label followed by a colon occurs in the
  text after \<open>Complainant Details:\<close>.
\<close>

theorem bare_label_ends_span:
  "extractContent ''Complainant Details: met Witness Details officer'' ''Complainant Details'' = ''met''
   \<and> list_all (\<lambda>L. \<not> occursCI (L @ '':'') '' met Witness Details officer'') sections"
  by (simp add: extract_eval)

text \<open>
  Claim C3 (the code departs from it). The pattern finds the label in any letter case,
  but \<open>replace\<close> looks for the label as it is spelled in \<open>sections\<close>: for a text
  that spells the label in lower case the prefix is not stripped, and the content is
  \<open>complainant details: Jane\<close>, not \<open>Jane\<close>.
\<close>

theorem lower_case_label_not_stripped:
  "regexMatch ''Complainant Details'' ''complainant details: Jane'' = Some ''complainant details: Jane''
   \<and> extractContent ''complainant details: Jane'' ''Complainant Details'' = ''complainant details: Jane''"
  by (simp add: extract_eval)

text \<open>
  Claim C4. The extraction has no failing branch: it is a total function of the text.
  For the empty text, and for every text that holds none of the six labels (in any
  letter case), each of the six sections has the content \<open>Information not provided\<close>.
\<close>

theorem extraction_without_labels:
  assumes "\<forall>L \<in> set sections. \<not> occursCI L t"
  shows "extractSections t = map (\<lambda>L. (L, ''Information not provided'')) sections
       \<and> extractSections [] = map (\<lambda>L. (L, ''Information not provided'')) sections"
proof -
  have none: "regexMatch L s = None" if "L \<in> set sections" "\<not> occursCI L s" for L s
    using that regexMatch_None_iff [OF section_no_dollar, of L s] occursCI_colon [of L s] by blast
  have empty: "\<not> occursCI L []" if "L \<in> set sections" for L
    using that by (auto simp: occursCI_def sections_def)
  have "extractSections t = map (\<lambda>L. (L, ''Information not provided'')) sections"
    using assms none [of _ t] by (simp add: extractSections_def extractContent_def)
  moreover have "extractSections [] = map (\<lambda>L. (L, ''Information not provided'')) sections"
    using empty none [of _ "[]"] by (simp add: extractSections_def extractContent_def)
  ultimately show ?thesis by simp
qed

theorem extraction_without_labels_witness:
  "extractSections ''My husband hit me: please help'' =
     [(''Complainant Details'', ''Information not provided''),
      (''Incident Details'', ''Information not provided''),
      (''Accused Details'', ''Information not provided''),
      (''Witness Details'', ''Information not provided''),
      (''Evidence Details'', ''Information not provided''),
      (''IPC Sections'', ''Information not provided'')]"
proof -
  have "list_all (\<lambda>L. \<not> occursCI L ''My husband hit me: please help'') sections"
    by (simp add: extract_eval)
  then have "\<forall>L \<in> set sections. \<not> occursCI L ''My husband hit me: please help''"
    by (simp add: list_all_iff)
  from extraction_without_labels [OF this] show ?thesis
    by (simp add: sections_def)
qed

subsection \<open>Truncation at a later label\<close>

lemma matchSeq_append_other:
  "CHR ''$'' \<notin> set ps \<Longrightarrow> canonicalize w \<notin> canonicalize ` set ps \<Longrightarrow>
   matchSeq ps (X @ w # Y) = matchSeq ps X"
proof (induction ps arbitrary: X)
  case Nil
  show ?case by simp
next
  case (Cons p ps)
  show ?case
  proof (cases X)
    case Nil
    with Cons.prems show ?thesis by auto
  next
    case (Cons x xs)
    with Cons.prems Cons.IH [of xs] show ?thesis by simp
  qed
qed

lemma matchSeq_append_nonempty:
  assumes "p \<noteq> CHR ''$''" "CHR ''$'' \<notin> set ps"
    and "canonicalize w \<notin> canonicalize ` set ps" "X \<noteq> []"
  shows "matchSeq (p # ps) (X @ w # Y) = matchSeq (p # ps) X"
proof -
  obtain x xs where X: "X = x # xs" using assms(4) by (cases X) auto
  show ?thesis using assms(1) matchSeq_append_other [OF assms(2,3), of xs Y] by (simp add: X)
qed

text \<open>
  No alternative and no label has a \<open>W\<close> or \<open>w\<close> after its first character, so a
  match that starts before an occurrence of \<open>Witness Details:\<close> cannot run into it.
\<close>

lemma alt_append:
  assumes "alt \<in> set alternatives" "X \<noteq> []"
  shows "matchSeq alt (X @ CHR ''W'' # Y) = matchSeq alt X"
proof -
  consider "alt = ''$''" | "alt \<noteq> []" "CHR ''$'' \<notin> set alt"
      "\<not> list_ex (\<lambda>p. canonicalize p = canonicalize (CHR ''W'')) (tl alt)"
    using assms(1) alternatives_shape by (auto simp: list_all_iff)
  then show ?thesis
  proof cases
    case 1
    with assms(2) show ?thesis by simp
  next
    case 2
    obtain p ps where alt: "alt = p # ps" using 2(1) by (cases alt) auto
    have "p \<noteq> CHR ''$''" "CHR ''$'' \<notin> set ps" using 2(2) alt by auto
    moreover have "canonicalize (CHR ''W'') \<notin> canonicalize ` set ps"
      using 2(3) alt by (auto simp: list_ex_iff)
    ultimately show ?thesis
      using matchSeq_append_nonempty [of p ps "CHR ''W''" X Y] assms(2) alt by simp
  qed
qed

lemma literal_append:
  assumes "L \<in> set sections" "X \<noteq> []"
  shows "matchSeq (L @ '':'') (X @ CHR ''W'' # Y) = matchSeq (L @ '':'') X"
proof -
  have sh: "CHR ''$'' \<notin> set L"
      "\<not> list_ex (\<lambda>p. canonicalize p = canonicalize (CHR ''W'')) (tl (L @ '':''))"
    using assms(1) sections_shape by (auto simp: list_all_iff)
  obtain p ps where lit: "L @ '':'' = p # ps" by (cases "L @ '':''") auto
  have "CHR ''$'' \<notin> set (L @ '':'')" using sh(1) by simp
  then have "p \<noteq> CHR ''$''" "CHR ''$'' \<notin> set ps"
    unfolding lit by auto
  moreover have "canonicalize (CHR ''W'') \<notin> canonicalize ` set ps"
    using sh(2) lit by (auto simp: list_ex_iff)
  ultimately show ?thesis
    using matchSeq_append_nonempty [of p ps "CHR ''W''" X Y] assms(2) lit by simp
qed

lemma lookahead_append:
  "X \<noteq> [] \<Longrightarrow> lookahead (X @ ''Witness Details:'' @ B) = lookahead X"
  using alt_append [of _ X "''itness Details:'' @ B"]
  by (simp add: lookahead_def list_ex_iff)

lemma lookahead_Witness: "lookahead (''Witness Details:'' @ B)"
  by (simp add: lookahead_def alternatives_eq canonicalize_def)

lemma lazyRun_append: "lazyRun (A @ ''Witness Details:'' @ B) = lazyRun A"
proof (induction A)
  case Nil
  show ?case using lookahead_Witness [of B] by (simp add: lookahead_Nil)
next
  case (Cons a A)
  show ?case using Cons lookahead_append [of "a # A" B] by simp
qed

lemma matchHere_append:
  assumes "L \<in> set sections" "A \<noteq> []"
  shows "matchHere L (A @ ''Witness Details:'' @ B) = matchHere L A"
proof (cases "matchSeq (L @ '':'') A")
  case True
  have "length (L @ '':'') \<le> length A"
    using matchSeq_length [OF _ True] section_no_dollar [OF assms(1)] by simp
  then show ?thesis
    using True literal_append [OF assms, of "''itness Details:'' @ B"]
      lazyRun_append [of "drop (length (L @ '':'')) A" B]
    by (simp add: matchHere_def Let_def)
next
  case False
  then show ?thesis
    using literal_append [OF assms, of "''itness Details:'' @ B"]
    by (simp add: matchHere_def Let_def)
qed

lemma regexMatch_append:
  assumes "L \<in> set sections"
  shows "regexMatch L A \<noteq> None \<Longrightarrow>
         regexMatch L (A @ ''Witness Details:'' @ B) = regexMatch L A"
proof (induction A)
  case Nil
  have "\<not> matchSeq (L @ '':'') []"
    using matchSeq_length [of "L @ '':''" "[]"] section_no_dollar [OF assms] by auto
  with Nil show ?case by (simp add: matchHere_None)
next
  case (Cons a A)
  show ?case
  proof (cases "matchHere L (a # A)")
    case None
    then have "regexMatch L A \<noteq> None" using Cons.prems by simp
    then show ?thesis
      using None Cons.IH matchHere_append [OF assms, of "a # A" B] by simp
  next
    case (Some m)
    then show ?thesis using matchHere_append [OF assms, of "a # A" B] by simp
  qed
qed

text \<open>
  Claim C6. When the text after a label \<open>L:\<close> holds the literal \<open>Witness Details:\<close>,
  the content extracted for \<open>L\<close> is cut before that occurrence: it is the content
  extracted from the text that ends right before it, whatever follows.
\<close>

theorem content_truncated_at_Witness_Details:
  assumes "L \<in> set sections" "occursCI (L @ '':'') A"
  shows "extractContent (A @ ''Witness Details:'' @ B) L = extractContent A L"
proof -
  have "regexMatch L A \<noteq> None"
    using regexMatch_None_iff [OF section_no_dollar [OF assms(1)], of A] assms(2) by simp
  then show ?thesis
    using regexMatch_append [OF assms(1), of A B] by (simp add: extractContent_def)
qed

theorem content_truncated_at_Witness_Details_witness:
  "extractContent (''Incident Details: at home, see '' @ ''Witness Details:'' @ '' the neighbour'')
     ''Incident Details'' = ''at home, see''"
proof -
  have 1: "''Incident Details'' \<in> set sections" by (simp add: sections_def)
  have 2: "occursCI (''Incident Details'' @ '':'') ''Incident Details: at home, see ''" by (simp add: extract_eval)
  have 3: "extractContent ''Incident Details: at home, see '' ''Incident Details'' = ''at home, see''"
    by (simp add: extract_eval)
  show ?thesis
    using content_truncated_at_Witness_Details [OF 1 2, of "'' the neighbour''"] 3 by (simp only:)
qed

section \<open>Properties of strings and of replacement\<close>

lemma indexOf_None_iff: "indexOf s pat = None \<longleftrightarrow> \<not> sublist pat s"
  by (induction s) (auto simp: sublist_Cons_right)

lemma includesStr_iff_sublist: "includesStr s pat \<longleftrightarrow> sublist pat s"
  by (simp add: includesStr_def indexOf_None_iff)

lemma getSubstitution_literal:
  "CHR ''$'' \<notin> set r \<Longrightarrow> getSubstitution m s p r = r"
  by (induction m s p r rule: getSubstitution.induct) auto

text \<open>
  A replacement text that holds none of the four patterns is inserted as it is: a
  \<open>$\<close> before any other character, or at the end, is literal.
\<close>

lemma getSubstitution_plain:
  "\<forall>p \<in> set dollarPatterns. \<not> sublist p r \<Longrightarrow> getSubstitution m s pos r = r"
proof (induction m s pos r rule: getSubstitution.induct)
  case (3 m s pos c d rest)
  have head: "\<not> (c = CHR ''$'' \<and> d \<in> {CHR ''$'', CHR ''&'', CHR 0x60, CHR 0x27})"
    using "3.prems" by (auto simp: dollarPatterns_def sublist_Cons_right)
  have "\<forall>p \<in> set dollarPatterns. \<not> sublist p (d # rest)"
    using "3.prems" by (simp add: sublist_Cons_right [of _ c])
  with head "3.IH" show ?case by auto
qed simp_all

lemma prefix_separator:
  "c \<notin> set pat \<Longrightarrow> prefix pat (A @ c # Y) = prefix pat A"
  by (auto simp: prefix_append prefix_Cons)

lemma sublist_separator:
  "c \<notin> set pat \<Longrightarrow> sublist pat (X @ c # Y) \<longleftrightarrow> sublist pat X \<or> sublist pat Y"
proof (induction X)
  case Nil
  then show ?case by (auto simp: sublist_Cons_right prefix_Cons)
next
  case (Cons x X)
  have "prefix pat (x # X @ c # Y) = prefix pat (x # X)"
    using prefix_separator [OF Cons.prems, of "x # X" Y] by simp
  with Cons show ?case by (auto simp: sublist_Cons_right)
qed

lemma prefix_append_short:
  assumes "prefix p (A @ B)" "length p \<le> length A"
  shows "prefix p A"
proof -
  obtain zs where zs: "A @ B = p @ zs" using assms(1) by (auto simp: prefix_def)
  have "take (length p) (A @ B) = take (length p) (p @ zs)" by (simp only: zs)
  then have "take (length p) A = p" using assms(2) by simp
  then show ?thesis by (metis take_is_prefix)
qed

lemma indexOf_first:
  assumes "pat \<noteq> []"
  shows "\<not> sublist pat (X @ butlast pat) \<Longrightarrow> indexOf (X @ pat @ Y) pat = Some (length X)"
proof (induction X)
  case Nil
  obtain p ps where "pat = p # ps" using assms by (cases pat) auto
  then show ?case by simp
next
  case (Cons x X)
  have split: "(x # X) @ pat @ Y = ((x # X) @ butlast pat) @ last pat # Y"
    using assms by (simp add: append_butlast_last_id [symmetric] del: append_butlast_last_id)
  have "\<not> prefix pat ((x # X) @ pat @ Y)"
  proof
    assume "prefix pat ((x # X) @ pat @ Y)"
    then have "prefix pat (((x # X) @ butlast pat) @ last pat # Y)" by (simp only: split)
    moreover have "length pat \<le> length ((x # X) @ butlast pat)" by simp
    ultimately have "prefix pat ((x # X) @ butlast pat)"
      by (rule prefix_append_short)
    then show False using Cons.prems by auto
  qed
  moreover have "\<not> sublist pat (X @ butlast pat)"
    using Cons.prems by (simp add: sublist_Cons_right)
  ultimately show ?case using Cons.IH by simp
qed

lemma replace_first:
  assumes "pat \<noteq> []" "\<not> sublist pat (X @ butlast pat)"
    and "\<forall>p \<in> set dollarPatterns. \<not> sublist p r"
  shows "replace (X @ pat @ Y) pat r = X @ r @ Y"
  using indexOf_first [OF assms(1,2), of Y] getSubstitution_plain [OF assms(3)]
  by (simp add: replace_def)


lemma replace_keeps_suffix:
  assumes "sublist pat X"
  shows "\<exists>Z. replace (X @ Y) pat r = Z @ Y"
proof -
  have "\<exists>i. indexOf (X @ Y) pat = Some i \<and> i + length pat \<le> length X"
    using assms
  proof (induction X)
    case Nil
    then show ?case by (cases Y) auto
  next
    case (Cons x X)
    show ?case
    proof (cases "prefix pat (x # X)")
      case True
      then have "prefix pat ((x # X) @ Y)" by (rule prefix_prefix)
      with True show ?thesis by (auto dest: prefix_length_le)
    next
      case False
      then have "sublist pat X" using Cons.prems by (simp add: sublist_Cons_right)
      then obtain i where "indexOf (X @ Y) pat = Some i" "i + length pat \<le> length X"
        using Cons.IH by blast
      then show ?thesis by auto
    qed
  qed
  then obtain i where i: "indexOf (X @ Y) pat = Some i" "i + length pat \<le> length X" by blast
  then have "replace (X @ Y) pat r =
      (take i X @ getSubstitution pat (X @ Y) i r @ drop (i + length pat) X) @ Y"
    by (simp add: replace_def)
  then show ?thesis by blast
qed

section \<open>Properties of the document assembly\<close>

lemma FIR_TEMPLATE_parts:
  "FIR_TEMPLATE = templateHead @ ''{{CONTENT}}'' @ templateMiddle @ ''{{DATE}}'' @ templateTail"
  by (simp add: FIR_TEMPLATE_def templateHead_def templateMiddle_def templateTail_def)

text \<open>
  The template holds no two adjacent opening braces outside its placeholders, and its
  parts end and start with characters that no placeholder holds. So a text that starts
  with two opening braces occurs in the assembled document only inside the inserted
  content or the inserted rest.
\<close>

lemma template_frame_free:
  assumes pat: "pat = CHR ''{'' # CHR ''{'' # q" "CHR ''\<newline>'' \<notin> set q"
    and SC: "\<not> sublist pat SC" and Z: "\<not> sublist pat Z"
  shows "\<not> sublist pat (templateHead @ SC @ templateMiddle @ Z)"
proof -
  have nl: "CHR ''\<newline>'' \<notin> set pat" using pat by simp
  have eq: "SC @ templateMiddle @ Z = SC @ CHR ''\<newline>'' # (tl templateMiddle @ Z)"
    by (simp add: templateMiddle_def)
  have "\<not> sublist pat (tl templateMiddle @ Z)"
    using Z unfolding pat(1) by (simp add: templateMiddle_def sublist_Cons_right)
  then have "\<not> sublist pat (SC @ templateMiddle @ Z)"
    unfolding eq using SC by (simp only: sublist_separator [OF nl] simp_thms)
  then show ?thesis
    unfolding pat(1) by (simp add: templateHead_def sublist_Cons_right)
qed

lemma sectionBlock_shape:
  \<open>sectionBlock L c @ R =
     (''\<newline>          <div class="section">\<newline>            <div class="section-title">'' @ L @
      ''</div>\<newline>            <div'') @ CHR ''>'' # (c @ CHR ''<'' #
      (''/div>\<newline>          </div'' @ CHR ''>'' # R))\<close>
  by (simp add: sectionBlock_def)

lemma sublist_needs_char: "c \<in> set pat \<Longrightarrow> c \<notin> set X \<Longrightarrow> \<not> sublist pat X"
  using set_mono_sublist by fastforce

text \<open>
  The markup of a block holds neither \<open>{\<close> nor \<open>$\<close>, and the content stands
  between \<open>>\<close> and \<open><\<close>. So a text that holds one of the two characters and
  neither \<open><\<close> nor \<open>>\<close> occurs in the blocks only inside a content.
\<close>

lemma sectionBlock_free:
  assumes pat: "k \<in> set pat" "CHR ''<'' \<notin> set pat" "CHR ''>'' \<notin> set pat"
    and k: "k = CHR ''{'' \<or> k = CHR ''$''"
    and "k \<notin> set L" "\<not> sublist pat c" "\<not> sublist pat R"
  shows "\<not> sublist pat (sectionBlock L c @ R)"
proof -
  have a: \<open>\<not> sublist pat (''\<newline>          <div class="section">\<newline>            <div class="section-title">'' @ L @
      ''</div>\<newline>            <div'')\<close>
    using k assms(5) by (intro sublist_needs_char [OF pat(1)]) auto
  have b: \<open>\<not> sublist pat ''/div>\<newline>          </div''\<close>
    using k by (intro sublist_needs_char [OF pat(1)]) auto
  show ?thesis
    unfolding sectionBlock_shape using a b assms(6,7)
    by (simp only: sublist_separator [OF pat(2)] sublist_separator [OF pat(3)] simp_thms)
qed

lemma blocks_free:
  assumes pat: "k \<in> set pat" "CHR ''<'' \<notin> set pat" "CHR ''>'' \<notin> set pat"
    and k: "k = CHR ''{'' \<or> k = CHR ''$''"
  shows "(\<forall>L \<in> set ls. k \<notin> set L \<and> \<not> sublist pat (f L)) \<Longrightarrow>
         \<not> sublist pat (concat (map (\<lambda>L. sectionBlock L (f L)) ls))"
proof (induction ls)
  case Nil
  show ?case using pat(1) by auto
next
  case (Cons L ls)
  then show ?case using sectionBlock_free [OF pat k] by simp
qed

lemma structuredContent_concat:
  "structuredContent t = concat (map (\<lambda>L. sectionBlock L (extractContent t L)) sections)"
  by (simp add: structuredContent_def extractSections_def join_empty_sep comp_def)

lemma structuredContent_free:
  assumes pat: "k \<in> set pat" "CHR ''<'' \<notin> set pat" "CHR ''>'' \<notin> set pat"
    and k: "k = CHR ''{'' \<or> k = CHR ''$''"
    and "\<forall>L \<in> set sections. \<not> sublist pat (extractContent t L)"
  shows "\<not> sublist pat (structuredContent t)"
proof -
  have "\<forall>L \<in> set sections. k \<notin> set L" using k by (auto simp: sections_def)
  with assms(5) show ?thesis
    unfolding structuredContent_concat by (intro blocks_free [OF pat k]) blast
qed

lemma structuredContent_plain:
  assumes "\<forall>L \<in> set sections. \<forall>p \<in> set dollarPatterns. \<not> sublist p (extractContent t L)"
  shows "\<forall>p \<in> set dollarPatterns. \<not> sublist p (structuredContent t)"
proof
  fix p assume p: "p \<in> set dollarPatterns"
  then have "CHR ''$'' \<in> set p" "CHR ''<'' \<notin> set p" "CHR ''>'' \<notin> set p"
    by (auto simp: dollarPatterns_def)
  moreover have "\<forall>L \<in> set sections. \<not> sublist p (extractContent t L)"
    using assms p by blast
  ultimately show "\<not> sublist p (structuredContent t)"
    by (intro structuredContent_free [where k = "CHR ''$''"]) simp_all
qed

lemma structuredContent_no_dollar:
  assumes "\<forall>L \<in> set sections. CHR ''$'' \<notin> set (extractContent t L)"
  shows "CHR ''$'' \<notin> set (structuredContent t)"
proof -
  have "\<forall>L \<in> set sections. CHR ''$'' \<notin> set L" by (simp add: sections_def)
  with assms show ?thesis
    by (auto simp: structuredContent_concat sectionBlock_def)
qed

lemma CONTENT_not_before:
  "\<not> sublist ''{{CONTENT}}'' (templateHead @ butlast ''{{CONTENT}}'')"
  by (simp add: templateHead_def sublist_Cons_right)

lemma replace_CONTENT:
  "replace FIR_TEMPLATE ''{{CONTENT}}'' r =
     templateHead @ getSubstitution ''{{CONTENT}}'' FIR_TEMPLATE (length templateHead) r @
     templateMiddle @ ''{{DATE}}'' @ templateTail"
  using indexOf_first [OF _ CONTENT_not_before, of "templateMiddle @ ''{{DATE}}'' @ templateTail"]
  by (simp add: replace_def FIR_TEMPLATE_parts)

lemma replace_DATE:
  assumes "\<not> sublist ''{{DATE}}'' G" "\<forall>p \<in> set dollarPatterns. \<not> sublist p d"
  shows "replace (templateHead @ G @ templateMiddle @ ''{{DATE}}'' @ templateTail) ''{{DATE}}'' d =
         templateHead @ G @ templateMiddle @ d @ templateTail"
proof -
  have "\<not> sublist ''{{DATE}}'' ''{{DATE}''"
    by (simp add: sublist_Cons_right)
  then have "\<not> sublist ''{{DATE}}'' (templateHead @ G @ templateMiddle @ ''{{DATE}'')"
    using assms(1) by (intro template_frame_free [where q = "''DATE}}''"]) simp_all
  then have "\<not> sublist ''{{DATE}}'' ((templateHead @ G @ templateMiddle) @ butlast ''{{DATE}}'')"
    by simp
  from replace_first [OF _ this assms(2), of templateTail] show ?thesis by simp
qed

lemma document_free:
  assumes pat: "pat = CHR ''{'' # CHR ''{'' # q" "CHR ''\<newline>'' \<notin> set q" "CHR ''<'' \<notin> set q"
    and "\<not> sublist pat G" "\<not> sublist pat d"
  shows "\<not> sublist pat (templateHead @ G @ templateMiddle @ d @ templateTail)"
proof -
  have lt: "CHR ''<'' \<notin> set pat" using pat by simp
  have eq: "d @ templateTail = d @ CHR ''<'' # tl templateTail"
    by (simp add: templateTail_def)
  have "\<not> sublist pat (tl templateTail)"
    unfolding pat(1) by (simp add: templateTail_def sublist_Cons_right)
  then have "\<not> sublist pat (d @ templateTail)"
    unfolding eq using assms(5) by (simp only: sublist_separator [OF lt] simp_thms)
  then show ?thesis
    using assms(4) by (intro template_frame_free [OF pat(1,2)])
qed

lemma sublist_in_concat:
  "x \<in> set xs \<Longrightarrow> sublist (f x) (concat (map f xs))"
proof (induction xs)
  case Nil
  then show ?case by simp
next
  case (Cons a xs)
  show ?case
  proof (cases "x = a")
    case True
    then show ?thesis by simp
  next
    case False
    then have "sublist (f x) (concat (map f xs))" using Cons by simp
    moreover have "sublist (concat (map f xs)) (f a @ concat (map f xs))"
      by (rule sublist_append_leftI)
    ultimately show ?thesis
      using sublist_order.order_trans by fastforce
  qed
qed

lemma content_in_sectionBlock: "sublist c (sectionBlock L c)"
proof -
  have "sublist c (A @ L @ B @ c @ D)" for A B D :: jsstring
    using sublist_appendI [of c "A @ L @ B" D] by simp
  then show ?thesis unfolding sectionBlock_def .
qed

lemma content_in_structuredContent:
  assumes "L \<in> set sections"
  shows "sublist (extractContent t L) (structuredContent t)"
proof -
  have "sublist (sectionBlock L (extractContent t L)) (structuredContent t)"
    unfolding structuredContent_concat using assms by (rule sublist_in_concat)
  with content_in_sectionBlock [of "extractContent t L" L] show ?thesis
    using sublist_order.order_trans by blast
qed

lemma getSubstitution_other:
  "c \<noteq> CHR ''$'' \<Longrightarrow> getSubstitution m s p (c # r) = c # getSubstitution m s p r"
  by (cases r) auto

lemma getSubstitution_matched:
  "getSubstitution m s p (CHR ''$'' # CHR ''&'' # r) = m @ getSubstitution m s p r"
  by simp


text \<open>
  The replacement text of \<open>replace\<close> is a pattern, not a literal: in a content
  \<open>$&\<close> stands for the matched placeholder.
\<close>

lemma replace_expands_dollar:
  "replace ''<p>{{CONTENT}}</p>'' ''{{CONTENT}}'' ''paid $& now'' = ''<p>paid {{CONTENT}} now</p>''"
  by (simp add: replace_def)

text \<open>
  Claim C7, as stated, fails: the claim lets no placeholder remain in the document for
  every text. A content that holds \<open>{{DATE}}\<close> takes the date (the first occurrence
  is replaced) and leaves the placeholder of the template in the document; a content that
  holds \<open>$&\<close> puts \<open>{{CONTENT}}\<close> back into the document.
\<close>

theorem placeholder_remains:
  "sublist ''{{DATE}}'' (formattedHtml ''Complainant Details: {{DATE}}'' ''2/11/2026'')
   \<and> sublist ''{{CONTENT}}'' (formattedHtml ''Complainant Details: $&'' ''2/11/2026'')"
proof -
  let ?Y = "templateMiddle @ ''{{DATE}}'' @ templateTail"
  \<comment> \<open>a content that holds the date placeholder\<close>
  let ?t = "''Complainant Details: {{DATE}}''"
  have "\<forall>L \<in> set sections. CHR ''$'' \<notin> set (extractContent ?t L)"
    by (simp add: extract_eval)
  then have "CHR ''$'' \<notin> set (structuredContent ?t)"
    by (rule structuredContent_no_dollar)
  then have r1: "replace FIR_TEMPLATE ''{{CONTENT}}'' (structuredContent ?t) =
      (templateHead @ structuredContent ?t) @ ?Y"
    by (simp add: replace_CONTENT getSubstitution_literal)
  have "extractContent ?t ''Complainant Details'' = ''{{DATE}}''"
    by (simp add: extract_eval)
  then have "sublist ''{{DATE}}'' (structuredContent ?t)"
    using content_in_structuredContent [of "''Complainant Details''" ?t] by (simp add: sections_def)
  then have "sublist ''{{DATE}}'' (templateHead @ structuredContent ?t)"
    using sublist_order.order_trans sublist_append_leftI by blast
  then obtain Z where
    "replace ((templateHead @ structuredContent ?t) @ ?Y) ''{{DATE}}'' ''2/11/2026'' = Z @ ?Y"
    using replace_keeps_suffix by blast
  then have "formattedHtml ?t ''2/11/2026'' = (Z @ templateMiddle) @ ''{{DATE}}'' @ templateTail"
    by (simp add: formattedHtml_def r1)
  then have A: "sublist ''{{DATE}}'' (formattedHtml ?t ''2/11/2026'')"
    by (simp only: sublist_appendI)
  \<comment> \<open>a content that holds the replacement pattern for the matched text\<close>
  let ?u = "''Complainant Details: $&''"
  let ?G = "getSubstitution ''{{CONTENT}}'' FIR_TEMPLATE (length templateHead) (structuredContent ?u)"
  have G: "sublist ''{{CONTENT}}'' ?G \<and> \<not> sublist ''{{DATE}}'' ?G"
    by (simp add: structuredContent_concat extract_eval sectionBlock_def
          getSubstitution_other getSubstitution_matched del: getSubstitution.simps(3))
  have "formattedHtml ?u ''2/11/2026'' =
      templateHead @ ?G @ templateMiddle @ ''2/11/2026'' @ templateTail"
    unfolding formattedHtml_def replace_CONTENT using G
    by (intro replace_DATE) (simp_all add: dollarPatterns_def sublist_Cons_right)
  moreover have "sublist ''{{CONTENT}}'' (templateHead @ ?G @ templateMiddle @ ''2/11/2026'' @ templateTail)"
    using G sublist_order.order_trans sublist_appendI by blast
  ultimately have B: "sublist ''{{CONTENT}}'' (formattedHtml ?u ''2/11/2026'')" by simp
  from A B show ?thesis by simp
qed

text \<open>
  Claim C7 (amended). Each label and its content are wrapped into the block markup
  \<open>sectionBlock\<close> (title, then content), the six blocks are concatenated in the order
  of \<open>sections\<close>, and the concatenation and the date text replace \<open>{{CONTENT}}\<close>
  and \<open>{{DATE}}\<close> of \<open>FIR_TEMPLATE\<close>. Provided that no extracted content and
  not the date text holds one of the four replacement patterns (\<open>dollarPatterns\<close>) or
  the text of a placeholder, the document is the template with the blocks in place of the
  first placeholder and the date in place of the second, and neither placeholder remains
  in it. Any other \<open>$\<close> in a content or in the date is allowed and is copied as it is.
\<close>

theorem formattedHtml_assembled:
  assumes contents: "\<forall>L \<in> set sections.
        (\<forall>p \<in> set dollarPatterns. \<not> sublist p (extractContent t L)) \<and>
        \<not> sublist ''{{CONTENT}}'' (extractContent t L) \<and>
        \<not> sublist ''{{DATE}}'' (extractContent t L)"
    and date: "\<forall>p \<in> set dollarPatterns. \<not> sublist p date"
      "\<not> sublist ''{{CONTENT}}'' date" "\<not> sublist ''{{DATE}}'' date"
  shows "formattedHtml t date =
           templateHead @ concat (map (\<lambda>L. sectionBlock L (extractContent t L)) sections) @
           templateMiddle @ date @ templateTail
       \<and> \<not> sublist ''{{CONTENT}}'' (formattedHtml t date)
       \<and> \<not> sublist ''{{DATE}}'' (formattedHtml t date)"
proof -
  let ?SC = "structuredContent t"
  have plain: "\<forall>p \<in> set dollarPatterns. \<not> sublist p ?SC"
    using contents by (intro structuredContent_plain) blast
  have freeC: "\<not> sublist ''{{CONTENT}}'' ?SC"
    using contents by (intro structuredContent_free [where k = "CHR ''{''"]) simp_all
  have freeD: "\<not> sublist ''{{DATE}}'' ?SC"
    using contents by (intro structuredContent_free [where k = "CHR ''{''"]) simp_all
  have eq: "formattedHtml t date = templateHead @ ?SC @ templateMiddle @ date @ templateTail"
    unfolding formattedHtml_def replace_CONTENT getSubstitution_plain [OF plain]
    by (rule replace_DATE [OF freeD date(1)])
  have "\<not> sublist ''{{CONTENT}}'' (templateHead @ ?SC @ templateMiddle @ date @ templateTail)"
    using freeC date(2) by (intro document_free [where q = "''CONTENT}}''"]) simp_all
  moreover have "\<not> sublist ''{{DATE}}'' (templateHead @ ?SC @ templateMiddle @ date @ templateTail)"
    using freeD date(3) by (intro document_free [where q = "''DATE}}''"]) simp_all
  ultimately show ?thesis
    using eq by (simp add: structuredContent_concat)
qed

theorem formattedHtml_assembled_witness:
  "formattedHtml ''Complainant Details: Jane Doe, paid $5 and 100$\<newline>Incident Details: 2024-01-02, Delhi'' ''2/11/2026'' =
     templateHead @
     concat (map (\<lambda>L. sectionBlock L
        (extractContent ''Complainant Details: Jane Doe, paid $5 and 100$\<newline>Incident Details: 2024-01-02, Delhi'' L)) sections) @
     templateMiddle @ ''2/11/2026'' @ templateTail
   \<and> \<not> sublist ''{{CONTENT}}''
        (formattedHtml ''Complainant Details: Jane Doe, paid $5 and 100$\<newline>Incident Details: 2024-01-02, Delhi'' ''2/11/2026'')
   \<and> \<not> sublist ''{{DATE}}''
        (formattedHtml ''Complainant Details: Jane Doe, paid $5 and 100$\<newline>Incident Details: 2024-01-02, Delhi'' ''2/11/2026'')
   \<and> extractContent ''Complainant Details: Jane Doe, paid $5 and 100$\<newline>Incident Details: 2024-01-02, Delhi''
        ''Complainant Details'' = ''Jane Doe, paid $5 and 100$''"
proof -
  let ?t = "''Complainant Details: Jane Doe, paid $5 and 100$\<newline>Incident Details: 2024-01-02, Delhi''"
  have vals: "map (extractContent ?t) sections =
      [''Jane Doe, paid $5 and 100$'', ''2024-01-02, Delhi'', ''Information not provided'',
       ''Information not provided'', ''Information not provided'', ''Information not provided'']"
    by (simp add: extract_eval)
  have "list_all (\<lambda>c. list_all (\<lambda>p. \<not> sublist p c) dollarPatterns \<and>
        \<not> sublist ''{{CONTENT}}'' c \<and> \<not> sublist ''{{DATE}}'' c)
      (map (extractContent ?t) sections)"
    unfolding vals by (simp add: dollarPatterns_def sublist_Cons_right)
  then have c: "\<forall>L \<in> set sections.
        (\<forall>p \<in> set dollarPatterns. \<not> sublist p (extractContent ?t L)) \<and>
        \<not> sublist ''{{CONTENT}}'' (extractContent ?t L) \<and>
        \<not> sublist ''{{DATE}}'' (extractContent ?t L)"
    by (simp add: list_all_iff)
  have d: "\<forall>p \<in> set dollarPatterns. \<not> sublist p ''2/11/2026''"
    "\<not> sublist ''{{CONTENT}}'' ''2/11/2026''" "\<not> sublist ''{{DATE}}'' ''2/11/2026''"
    by (simp_all add: dollarPatterns_def sublist_Cons_right)
  have v: "extractContent ?t ''Complainant Details'' = ''Jane Doe, paid $5 and 100$''"
    using vals by (simp add: sections_def)
  from formattedHtml_assembled [OF c d] v show ?thesis by blast
qed

section \<open>Properties of the search\<close>

lemma includesStr_empty: "includesStr s []"
  by (simp add: includesStr_iff_sublist)

text \<open>
  Claim C9. \<open>handleSearch\<close> sets the results to exactly those entries of the combined
  data (all IPC rows, then all PWDVA rows, in the order of the tables) whose title or
  description, in lower case, holds the query in lower case as a substring; for the empty
  query the results are the whole combined data.
\<close>

theorem handleSearch_results:
  "results (handleSearch ipcData pwdvaData st) =
     filter (\<lambda>e. sublist (toLowerCase (query st)) (toLowerCase (title e)) \<or>
                 sublist (toLowerCase (query st)) (toLowerCase (description e)))
       (map (withSource ''IPC'') ipcData @ map (withSource ''PWDVA'') pwdvaData)
   \<and> (query st = [] \<longrightarrow>
        results (handleSearch ipcData pwdvaData st) =
          map (withSource ''IPC'') ipcData @ map (withSource ''PWDVA'') pwdvaData)"
proof -
  have "results (handleSearch ipcData pwdvaData st) =
     filter (\<lambda>e. sublist (toLowerCase (query st)) (toLowerCase (title e)) \<or>
                 sublist (toLowerCase (query st)) (toLowerCase (description e)))
       (map (withSource ''IPC'') ipcData @ map (withSource ''PWDVA'') pwdvaData)"
    by (simp add: handleSearch_def fadeIn_def allData_def Let_def includesStr_iff_sublist)
  moreover have "results (handleSearch ipcData pwdvaData st) =
          map (withSource ''IPC'') ipcData @ map (withSource ''PWDVA'') pwdvaData"
    if "query st = []"
    using that by (simp add: handleSearch_def fadeIn_def allData_def Let_def toLowerCase_def includesStr_empty)
  ultimately show ?thesis by blast
qed

theorem handleSearch_results_witness:
  "map title (results (handleSearch
      [\<lparr>title = ''Cruelty by husband'', description = ''Section 498A'', sectionNo = ''498A''\<rparr>,
       \<lparr>title = ''Dowry death'', description = ''Section 304B'', sectionNo = ''304B''\<rparr>]
      [\<lparr>title = ''Protection orders'', description = ''Against acts of cruelty'', sectionNo = ''18''\<rparr>]
      \<lparr>query = ''CRUELTY'', results = [], selectedLaw = None, showSuggestions = True,
        fadeAnim = 1, animations = []\<rparr>))
     = [''Cruelty by husband'', ''Protection orders'']
   \<and> map source (results (handleSearch
      [\<lparr>title = ''Cruelty by husband'', description = ''Section 498A'', sectionNo = ''498A''\<rparr>]
      [\<lparr>title = ''Protection orders'', description = ''Against acts of cruelty'', sectionNo = ''18''\<rparr>]
      \<lparr>query = [], results = [], selectedLaw = None, showSuggestions = True,
        fadeAnim = 1, animations = []\<rparr>))
     = [''IPC'', ''PWDVA'']"
proof -
  let ?a = "\<lparr>title = ''Cruelty by husband'', description = ''Section 498A'', sectionNo = ''498A''\<rparr>"
  let ?b = "\<lparr>title = ''Dowry death'', description = ''Section 304B'', sectionNo = ''304B''\<rparr>"
  let ?c = "\<lparr>title = ''Protection orders'', description = ''Against acts of cruelty'', sectionNo = ''18''\<rparr>"
  let ?s = "\<lparr>query = ''CRUELTY'', results = [], selectedLaw = None, showSuggestions = True,
        fadeAnim = 1, animations = []\<rparr>"
  let ?e = "\<lparr>query = [], results = [], selectedLaw = None, showSuggestions = True,
        fadeAnim = 1, animations = []\<rparr>"
  have lower: "toLowerCase ''CRUELTY'' = ''cruelty''"
      "toLowerCase ''Cruelty by husband'' = ''cruelty by husband''"
      "toLowerCase ''Section 498A'' = ''section 498a''"
      "toLowerCase ''Dowry death'' = ''dowry death''"
      "toLowerCase ''Section 304B'' = ''section 304b''"
      "toLowerCase ''Protection orders'' = ''protection orders''"
      "toLowerCase ''Against acts of cruelty'' = ''against acts of cruelty''"
    by code_simp+
  have 1: "map title (results (handleSearch [?a, ?b] [?c] ?s)) =
      [''Cruelty by husband'', ''Protection orders'']"
    unfolding handleSearch_results [of "[?a, ?b]" "[?c]" ?s, THEN conjunct1]
    by (simp add: withSource_def lower sublist_Cons_right)
  have "query ?e = []" by simp
  with handleSearch_results [of "[?a]" "[?c]" ?e]
  have "results (handleSearch [?a] [?c] ?e) = map (withSource ''IPC'') [?a] @ map (withSource ''PWDVA'') [?c]"
    by blast
  then have 2: "map source (results (handleSearch [?a] [?c] ?e)) = [''IPC'', ''PWDVA'']"
    by (simp add: withSource_def)
  from 1 2 show ?thesis by (rule conjI)
qed

section \<open>Properties of the chat handlers\<close>

lemmas action_defs =
  ret_def throw_def andThen_def tryCatch_def tryFinally_def emit_def call_def
  setMessages_def setInputText_def setIsLoading_def

lemma trim_blank: "list_all isWhiteSpace s \<Longrightarrow> trim s = []"
proof -
  assume "list_all isWhiteSpace s"
  then have d: "dropWhile isWhiteSpace s = []"
    by (simp add: list_all_iff)
  show ?thesis
    by (simp only: trim_def trimStart_def trimEnd_def d rev.simps dropWhile.simps)
qed

text \<open>
  Claim C10. When the input is empty or holds white space only, \<open>handleSend\<close>
  returns at once: the transcript, the input field, the loading flag and the log of
  external effects (no insert, no remote call) are what they were.
\<close>

theorem handleSend_blank_input:
  "list_all isWhiteSpace (inputText w) \<Longrightarrow> handleSend sv w = (Inr (), w)"
  by (simp add: handleSend_def trim_blank ret_def)

theorem handleSend_blank_input_witness:
  "handleSend
     \<lparr>geminiConfigured = True, generateContent = (\<lambda>n p. Inr ''I am listening.''),
      serpKeyConfigured = False, serpSearch = (\<lambda>q. Inr None),
      supabaseInsert = (\<lambda>r m md. Inr ()), printToFileAsync = (\<lambda>h. Inr ''file:///fir.pdf''),
      shareAsync = (\<lambda>u. Inr ()), platformOS = ''android'', today = (\<lambda>k. ''2/11/2026'')\<rparr>
     \<lparr>messages = [\<lparr>role = ''assistant'', msgText = ''Hi''\<rparr>], inputText = ''  \<newline> '',
      isLoading = False, effects = []\<rparr>
   = (Inr (), \<lparr>messages = [\<lparr>role = ''assistant'', msgText = ''Hi''\<rparr>], inputText = ''  \<newline> '',
      isLoading = False, effects = []\<rparr>)"
  by (rule handleSend_blank_input) (simp add: isWhiteSpace_def)

lemma generateCalls_append [simp]:
  "generateCalls (xs @ ys) = generateCalls xs + generateCalls ys"
  by (simp add: generateCalls_def)

lemma saveInteraction_run:
  "\<exists>evs. saveInteraction sv r m md w = (Inr (), w\<lparr>effects := effects w @ evs\<rparr>) \<and>
         generateCalls evs = 0"
proof (cases "supabaseInsert sv r m md")
  case (Inl e)
  then have "saveInteraction sv r m md w =
      (Inr (), w\<lparr>effects := effects w @ [SupabaseInsert r m md, ConsoleWarn ''Supabase insert failed'']\<rparr>)"
    by (simp add: saveInteraction_def action_defs)
  then show ?thesis by (auto simp: generateCalls_def)
next
  case (Inr u)
  then have "saveInteraction sv r m md w = (Inr (), w\<lparr>effects := effects w @ [SupabaseInsert r m md]\<rparr>)"
    by (simp add: saveInteraction_def action_defs)
  then show ?thesis by (auto simp: generateCalls_def)
qed

lemma fallback_no_search: "\<not> includesStr fallbackReply ''NEEDS_SEARCH''"
  by (simp add: includesStr_iff_sublist fallbackReply_def sublist_Cons_right)

text \<open>The first call to the generation service fails: the reply is the fallback.\<close>

lemma first_call_fails:
  assumes "\<not> geminiConfigured sv \<or> isl (generateContent sv (generateCalls (effects w)) p)"
  shows "\<exists>evs. tryCatch (callGemini sv p)
            (\<lambda>err. andThen (emit (ConsoleWarn ''Gemini call failed'')) (\<lambda>u. ret fallbackReply)) w =
          (Inr fallbackReply, w\<lparr>effects := effects w @ evs\<rparr>) \<and>
          generateCalls evs = (if geminiConfigured sv then 1 else 0)"
proof (cases "geminiConfigured sv")
  case False
  then have "tryCatch (callGemini sv p)
            (\<lambda>err. andThen (emit (ConsoleWarn ''Gemini call failed'')) (\<lambda>u. ret fallbackReply)) w =
          (Inr fallbackReply, w\<lparr>effects := effects w @ [ConsoleWarn ''Gemini call failed'']\<rparr>)"
    by (simp add: callGemini_def action_defs)
  with False show ?thesis by (auto simp: generateCalls_def)
next
  case True
  with assms obtain e where "generateContent sv (generateCalls (effects w)) p = Inl e"
    by (auto simp: isl_def)
  with True have "tryCatch (callGemini sv p)
            (\<lambda>err. andThen (emit (ConsoleWarn ''Gemini call failed'')) (\<lambda>u. ret fallbackReply)) w =
          (Inr fallbackReply, w\<lparr>effects := effects w @ [GenerateContent p, ConsoleWarn ''Gemini call failed'']\<rparr>)"
    by (simp add: callGemini_def action_defs)
  with True show ?thesis by (auto simp: generateCalls_def)
qed

lemma handleSend_first_call_fails:
  assumes nonblank: "trim (inputText w) \<noteq> []"
    and fails: "\<not> geminiConfigured sv \<or>
       isl (generateContent sv (generateCalls (effects w)) (chatPrompt (trim (inputText w))))"
  shows "fst (handleSend sv w) = Inr ()
     \<and> messages (snd (handleSend sv w)) =
         messages w @
           [\<lparr>role = ''user'', msgText = trim (inputText w)\<rparr>,
            \<lparr>role = ''assistant'', msgText =
               ''I am having trouble reaching the helper service right now. Please try again shortly.''\<rparr>]
     \<and> generateCalls (effects (snd (handleSend sv w))) =
         generateCalls (effects w) + (if geminiConfigured sv then 1 else 0)"
proof -
  let ?u = "trim (inputText w)"
  let ?w1 = "w\<lparr>messages := messages w @ [\<lparr>role = ''user'', msgText = ?u\<rparr>], inputText := []\<rparr>"
  obtain evs1 where s1: "saveInteraction sv ''user'' ?u None ?w1 =
      (Inr (), ?w1\<lparr>effects := effects ?w1 @ evs1\<rparr>)" and g1: "generateCalls evs1 = 0"
    using saveInteraction_run by blast
  let ?w2 = "?w1\<lparr>effects := effects ?w1 @ evs1, isLoading := True\<rparr>"
  have "generateCalls (effects ?w2) = generateCalls (effects w)" using g1 by simp
  with fails obtain evs2 where s2: "tryCatch (callGemini sv (chatPrompt ?u))
            (\<lambda>err. andThen (emit (ConsoleWarn ''Gemini call failed'')) (\<lambda>u. ret fallbackReply)) ?w2 =
          (Inr fallbackReply, ?w2\<lparr>effects := effects ?w2 @ evs2\<rparr>)"
      and g2: "generateCalls evs2 = (if geminiConfigured sv then 1 else 0)"
    using first_call_fails [of sv ?w2 "chatPrompt ?u"] by auto
  let ?w3 = "?w2\<lparr>effects := effects ?w2 @ evs2,
      messages := messages ?w2 @ [\<lparr>role = ''assistant'', msgText = fallbackReply\<rparr>]\<rparr>"
  obtain evs3 where s3: "saveInteraction sv ''assistant'' fallbackReply None ?w3 =
      (Inr (), ?w3\<lparr>effects := effects ?w3 @ evs3\<rparr>)" and g3: "generateCalls evs3 = 0"
    using saveInteraction_run by blast
  have "handleSend sv w = (Inr (), ?w3\<lparr>effects := effects ?w3 @ evs3, isLoading := False\<rparr>)"
    using nonblank s1 s2 s3 fallback_no_search
    by (simp add: handleSend_def Let_def action_defs)
  then show ?thesis
    using g1 g2 g3 by (simp add: fallbackReply_def)
qed

lemma querySerpApiForIPC_run:
  "\<exists>evs. querySerpApiForIPC sv q w = (Inr (searchResults sv q), w\<lparr>effects := effects w @ evs\<rparr>) \<and>
         generateCalls evs = 0"
proof (cases "serpKeyConfigured sv")
  case False
  then have "querySerpApiForIPC sv q w = (Inr (searchResults sv q), w\<lparr>effects := effects w @ []\<rparr>)"
    by (simp add: querySerpApiForIPC_def searchResults_def action_defs)
  then show ?thesis by (intro exI [of _ "[]"]) (simp add: generateCalls_def)
next
  case True
  show ?thesis
  proof (cases "serpSearch sv q")
    case (Inl e)
    with True have "querySerpApiForIPC sv q w =
        (Inr (searchResults sv q), w\<lparr>effects := effects w @ [SerpFetch q, ConsoleWarn ''SerpAPI error'']\<rparr>)"
      by (simp add: querySerpApiForIPC_def searchResults_def action_defs)
    then show ?thesis
      by (intro exI [of _ "[SerpFetch q, ConsoleWarn ''SerpAPI error'']"])
         (simp add: generateCalls_def)
  next
    case (Inr rs)
    with True have "querySerpApiForIPC sv q w =
        (Inr (searchResults sv q), w\<lparr>effects := effects w @ [SerpFetch q]\<rparr>)"
      by (simp add: querySerpApiForIPC_def searchResults_def action_defs)
    then show ?thesis
      by (intro exI [of _ "[SerpFetch q]"]) (simp add: generateCalls_def)
  qed
qed

text \<open>
  The second call to the generation service (the re-evaluation with the search results,
  line 200) has a handler of its own, which only warns: when that call fails, the reply of
  the first call stays, and that reply is the assistant turn.
\<close>

lemma handleSend_reevaluation_fails:
  assumes nonblank: "trim (inputText w) \<noteq> []"
    and cfg: "geminiConfigured sv"
    and first: "generateContent sv (generateCalls (effects w)) (chatPrompt (trim (inputText w))) = Inr r"
    and needs: "includesStr r ''NEEDS_SEARCH''"
    and second: "isl (generateContent sv (Suc (generateCalls (effects w)))
        (sourcePrompt
           (sourceSummary (searchResults sv
              (trim (inputText w) @ '' IPC relevant sections domestic violence India'')))
           (trim (inputText w))))"
  shows "fst (handleSend sv w) = Inr ()
     \<and> messages (snd (handleSend sv w)) =
         messages w @
           [\<lparr>role = ''user'', msgText = trim (inputText w)\<rparr>, \<lparr>role = ''assistant'', msgText = r\<rparr>]
     \<and> generateCalls (effects (snd (handleSend sv w))) = generateCalls (effects w) + 2"
proof -
  let ?u = "trim (inputText w)"
  let ?res = "searchResults sv (?u @ '' IPC relevant sections domestic violence India'')"
  have r: "r \<noteq> []" using needs by (auto simp: includesStr_def)
  let ?w1 = "w\<lparr>messages := messages w @ [\<lparr>role = ''user'', msgText = ?u\<rparr>], inputText := []\<rparr>"
  obtain evs1 where s1: "saveInteraction sv ''user'' ?u None ?w1 =
      (Inr (), ?w1\<lparr>effects := effects ?w1 @ evs1\<rparr>)" and g1: "generateCalls evs1 = 0"
    using saveInteraction_run by blast
  let ?w2 = "?w1\<lparr>effects := effects ?w1 @ evs1 @ [GenerateContent (chatPrompt ?u)], isLoading := True\<rparr>"
  have c1: "callGemini sv (chatPrompt ?u) (?w1\<lparr>effects := effects ?w1 @ evs1, isLoading := True\<rparr>) =
      (Inr r, ?w2)"
    using cfg first g1 by (simp add: callGemini_def action_defs)
  obtain evs2 where s2:
      "querySerpApiForIPC sv (?u @ '' IPC relevant sections domestic violence India'') ?w2 =
        (Inr ?res, ?w2\<lparr>effects := effects ?w2 @ evs2\<rparr>)" and g2: "generateCalls evs2 = 0"
    using querySerpApiForIPC_run by blast
  let ?w3 = "?w2\<lparr>effects := effects ?w2 @ evs2\<rparr>"
  let ?p = "sourcePrompt (sourceSummary ?res) ?u"
  have n3: "generateCalls (effects ?w3) = Suc (generateCalls (effects w))"
    using g1 g2 by (simp add: generateCalls_def)
  obtain e where "generateContent sv (Suc (generateCalls (effects w))) ?p = Inl e"
    using second by (auto simp: isl_def)
  then have c2: "tryCatch (callGemini sv ?p)
        (\<lambda>e. andThen (emit (ConsoleWarn ''Gemini re-eval failed'')) (\<lambda>u. ret r)) ?w3 =
      (Inr r, ?w3\<lparr>effects := effects ?w3 @ [GenerateContent ?p, ConsoleWarn ''Gemini re-eval failed'']\<rparr>)"
    using cfg n3 by (simp add: callGemini_def action_defs)
  let ?w4 = "?w3\<lparr>effects := effects ?w3 @ [GenerateContent ?p, ConsoleWarn ''Gemini re-eval failed''],
      messages := messages ?w3 @ [\<lparr>role = ''assistant'', msgText = r\<rparr>]\<rparr>"
  obtain evs3 where s3: "saveInteraction sv ''assistant'' r (Some ?res) ?w4 =
      (Inr (), ?w4\<lparr>effects := effects ?w4 @ evs3\<rparr>)" and g3: "generateCalls evs3 = 0"
    using saveInteraction_run by blast
  have "handleSend sv w = (Inr (), ?w4\<lparr>effects := effects ?w4 @ evs3, isLoading := False\<rparr>)"
    using nonblank s1 c1 s2 c2 s3 needs r
    by (simp add: handleSend_def reevaluate_def Let_def action_defs)
  then show ?thesis
    using g1 g2 g3 by (simp add: generateCalls_def)
qed

text \<open>
  Claim C8, as stated, fails: the claim gives the fallback sentence as the assistant turn
  whenever the remote generation call fails, and \<open>handleSend\<close> has two such calls. Here
  the first call answers a reply that holds \<open>NEEDS_SEARCH\<close> and the second call (the
  re-evaluation, the second \<open>GenerateContent\<close> of the log) throws: no exception comes
  out, and the assistant turn is the first reply, not the fallback sentence.
\<close>

theorem reevaluation_failure_keeps_first_reply:
  "handleSend
     \<lparr>geminiConfigured = True,
      generateContent = (\<lambda>n p. if n = 0 then Inr ''Section 498A may apply. NEEDS_SEARCH''
                               else Inl (Error ''Network request failed'')),
      serpKeyConfigured = False, serpSearch = (\<lambda>q. Inr None),
      supabaseInsert = (\<lambda>r m md. Inr ()), printToFileAsync = (\<lambda>h. Inr ''file:///fir.pdf''),
      shareAsync = (\<lambda>u. Inr ()), platformOS = ''android'', today = (\<lambda>k. ''2/11/2026'')\<rparr>
     \<lparr>messages = [], inputText = '' help me '', isLoading = False, effects = []\<rparr>
   = (Inr (),
      \<lparr>messages =
         [\<lparr>role = ''user'', msgText = ''help me''\<rparr>,
          \<lparr>role = ''assistant'', msgText = ''Section 498A may apply. NEEDS_SEARCH''\<rparr>],
       inputText = [], isLoading = False,
       effects =
         [SupabaseInsert ''user'' ''help me'' None,
          GenerateContent (chatPrompt ''help me''),
          GenerateContent (sourcePrompt [] ''help me''),
          ConsoleWarn ''Gemini re-eval failed'',
          SupabaseInsert ''assistant'' ''Section 498A may apply. NEEDS_SEARCH'' (Some None)]\<rparr>)"
proof -
  have t: "trim '' help me '' = ''help me''"
    by (simp add: trim_def trimStart_def trimEnd_def isWhiteSpace_def)
  have n: "includesStr ''Section 498A may apply. NEEDS_SEARCH'' ''NEEDS_SEARCH''"
    by (simp add: includesStr_iff_sublist sublist_Cons_right)
  show ?thesis
    by (simp add: handleSend_def t n Let_def reevaluate_def querySerpApiForIPC_def
          saveInteraction_def callGemini_def sourceSummary_def generateCalls_def action_defs)
qed

text \<open>
  Claim C8 (amended). When the input is not blank and a call to the generation service
  fails, \<open>handleSend\<close> ends without a thrown value and does not repeat the failed call.
  When the failing call is the first one (line 185: the service is not configured, or the
  call throws), the transcript grows by the user turn and by an assistant turn whose text is
  exactly the fallback sentence, and the service has been called once at most. When the
  first call answers a reply \<open>r\<close> that holds \<open>NEEDS_SEARCH\<close> and the failing call is the
  re-evaluation (line 200), the assistant turn is \<open>r\<close>, and the service has been called
  twice.
\<close>

theorem handleSend_generation_call_fails:
  assumes nonblank: "trim (inputText w) \<noteq> []"
  shows "(\<not> geminiConfigured sv \<or>
          isl (generateContent sv (generateCalls (effects w)) (chatPrompt (trim (inputText w))))
        \<longrightarrow>
          fst (handleSend sv w) = Inr ()
          \<and> messages (snd (handleSend sv w)) =
              messages w @
                [\<lparr>role = ''user'', msgText = trim (inputText w)\<rparr>,
                 \<lparr>role = ''assistant'', msgText =
                    ''I am having trouble reaching the helper service right now. Please try again shortly.''\<rparr>]
          \<and> generateCalls (effects (snd (handleSend sv w))) =
              generateCalls (effects w) + (if geminiConfigured sv then 1 else 0))
     \<and> (geminiConfigured sv
          \<and> generateContent sv (generateCalls (effects w)) (chatPrompt (trim (inputText w))) = Inr r
          \<and> includesStr r ''NEEDS_SEARCH''
          \<and> isl (generateContent sv (Suc (generateCalls (effects w)))
                 (sourcePrompt
                    (sourceSummary (searchResults sv
                       (trim (inputText w) @ '' IPC relevant sections domestic violence India'')))
                    (trim (inputText w))))
        \<longrightarrow>
          fst (handleSend sv w) = Inr ()
          \<and> messages (snd (handleSend sv w)) =
              messages w @
                [\<lparr>role = ''user'', msgText = trim (inputText w)\<rparr>,
                 \<lparr>role = ''assistant'', msgText = r\<rparr>]
          \<and> generateCalls (effects (snd (handleSend sv w))) = generateCalls (effects w) + 2)"
  using handleSend_first_call_fails [OF nonblank, of sv]
    handleSend_reevaluation_fails [OF nonblank, of sv r]
  by blast

theorem handleSend_generation_call_fails_witness:
  "(fst (handleSend
      \<lparr>geminiConfigured = True, generateContent = (\<lambda>n p. Inl (Error ''Network request failed'')),
       serpKeyConfigured = True, serpSearch = (\<lambda>q. Inr None),
       supabaseInsert = (\<lambda>r m md. Inr ()), printToFileAsync = (\<lambda>h. Inr ''file:///fir.pdf''),
       shareAsync = (\<lambda>u. Inr ()), platformOS = ''android'', today = (\<lambda>k. ''2/11/2026'')\<rparr>
      \<lparr>messages = [], inputText = '' help me '', isLoading = False, effects = []\<rparr>) = Inr ()
    \<and> messages (snd (handleSend
      \<lparr>geminiConfigured = True, generateContent = (\<lambda>n p. Inl (Error ''Network request failed'')),
       serpKeyConfigured = True, serpSearch = (\<lambda>q. Inr None),
       supabaseInsert = (\<lambda>r m md. Inr ()), printToFileAsync = (\<lambda>h. Inr ''file:///fir.pdf''),
       shareAsync = (\<lambda>u. Inr ()), platformOS = ''android'', today = (\<lambda>k. ''2/11/2026'')\<rparr>
      \<lparr>messages = [], inputText = '' help me '', isLoading = False, effects = []\<rparr>)) =
        [\<lparr>role = ''user'', msgText = ''help me''\<rparr>,
         \<lparr>role = ''assistant'', msgText =
            ''I am having trouble reaching the helper service right now. Please try again shortly.''\<rparr>]
    \<and> generateCalls (effects (snd (handleSend
      \<lparr>geminiConfigured = True, generateContent = (\<lambda>n p. Inl (Error ''Network request failed'')),
       serpKeyConfigured = True, serpSearch = (\<lambda>q. Inr None),
       supabaseInsert = (\<lambda>r m md. Inr ()), printToFileAsync = (\<lambda>h. Inr ''file:///fir.pdf''),
       shareAsync = (\<lambda>u. Inr ()), platformOS = ''android'', today = (\<lambda>k. ''2/11/2026'')\<rparr>
      \<lparr>messages = [], inputText = '' help me '', isLoading = False, effects = []\<rparr>))) = 1)
   \<and> (fst (handleSend
      \<lparr>geminiConfigured = True,
       generateContent = (\<lambda>n p. if n = 0 then Inr ''Please tell me more. NEEDS_SEARCH''
                                else Inl (Error ''Network request failed'')),
       serpKeyConfigured = True, serpSearch = (\<lambda>q. Inr None),
       supabaseInsert = (\<lambda>r m md. Inr ()), printToFileAsync = (\<lambda>h. Inr ''file:///fir.pdf''),
       shareAsync = (\<lambda>u. Inr ()), platformOS = ''android'', today = (\<lambda>k. ''2/11/2026'')\<rparr>
      \<lparr>messages = [], inputText = '' help me '', isLoading = False, effects = []\<rparr>) = Inr ()
    \<and> messages (snd (handleSend
      \<lparr>geminiConfigured = True,
       generateContent = (\<lambda>n p. if n = 0 then Inr ''Please tell me more. NEEDS_SEARCH''
                                else Inl (Error ''Network request failed'')),
       serpKeyConfigured = True, serpSearch = (\<lambda>q. Inr None),
       supabaseInsert = (\<lambda>r m md. Inr ()), printToFileAsync = (\<lambda>h. Inr ''file:///fir.pdf''),
       shareAsync = (\<lambda>u. Inr ()), platformOS = ''android'', today = (\<lambda>k. ''2/11/2026'')\<rparr>
      \<lparr>messages = [], inputText = '' help me '', isLoading = False, effects = []\<rparr>)) =
        [\<lparr>role = ''user'', msgText = ''help me''\<rparr>,
         \<lparr>role = ''assistant'', msgText = ''Please tell me more. NEEDS_SEARCH''\<rparr>]
    \<and> generateCalls (effects (snd (handleSend
      \<lparr>geminiConfigured = True,
       generateContent = (\<lambda>n p. if n = 0 then Inr ''Please tell me more. NEEDS_SEARCH''
                                else Inl (Error ''Network request failed'')),
       serpKeyConfigured = True, serpSearch = (\<lambda>q. Inr None),
       supabaseInsert = (\<lambda>r m md. Inr ()), printToFileAsync = (\<lambda>h. Inr ''file:///fir.pdf''),
       shareAsync = (\<lambda>u. Inr ()), platformOS = ''android'', today = (\<lambda>k. ''2/11/2026'')\<rparr>
      \<lparr>messages = [], inputText = '' help me '', isLoading = False, effects = []\<rparr>))) = 2)"
proof -
  let ?w = "\<lparr>messages = [], inputText = '' help me '', isLoading = False, effects = []\<rparr>"
  let ?sv1 = "\<lparr>geminiConfigured = True, generateContent = (\<lambda>n p. Inl (Error ''Network request failed'')),
       serpKeyConfigured = True, serpSearch = (\<lambda>q. Inr None),
       supabaseInsert = (\<lambda>r m md. Inr ()), printToFileAsync = (\<lambda>h. Inr ''file:///fir.pdf''),
       shareAsync = (\<lambda>u. Inr ()), platformOS = ''android'', today = (\<lambda>k. ''2/11/2026'')\<rparr>"
  let ?sv2 = "\<lparr>geminiConfigured = True,
       generateContent = (\<lambda>n p. if n = 0 then Inr ''Please tell me more. NEEDS_SEARCH''
                                else Inl (Error ''Network request failed'')),
       serpKeyConfigured = True, serpSearch = (\<lambda>q. Inr None),
       supabaseInsert = (\<lambda>r m md. Inr ()), printToFileAsync = (\<lambda>h. Inr ''file:///fir.pdf''),
       shareAsync = (\<lambda>u. Inr ()), platformOS = ''android'', today = (\<lambda>k. ''2/11/2026'')\<rparr>"
  have t: "trim (inputText ?w) = ''help me''"
    by (simp add: trim_def trimStart_def trimEnd_def isWhiteSpace_def)
  have nonblank: "trim (inputText ?w) \<noteq> []" unfolding t by simp
  have first: "\<not> geminiConfigured ?sv1 \<or>
      isl (generateContent ?sv1 (generateCalls (effects ?w)) (chatPrompt (trim (inputText ?w))))"
    by simp
  have second: "geminiConfigured ?sv2
      \<and> generateContent ?sv2 (generateCalls (effects ?w)) (chatPrompt (trim (inputText ?w))) =
          Inr ''Please tell me more. NEEDS_SEARCH''
      \<and> includesStr ''Please tell me more. NEEDS_SEARCH'' ''NEEDS_SEARCH''
      \<and> isl (generateContent ?sv2 (Suc (generateCalls (effects ?w)))
             (sourcePrompt
                (sourceSummary (searchResults ?sv2
                   (trim (inputText ?w) @ '' IPC relevant sections domestic violence India'')))
                (trim (inputText ?w))))"
    by (simp add: generateCalls_def includesStr_iff_sublist sublist_Cons_right)
  from handleSend_generation_call_fails [OF nonblank, of ?sv1, THEN conjunct1, rule_format, OF first]
  have A: "fst (handleSend ?sv1 ?w) = Inr ()
     \<and> messages (snd (handleSend ?sv1 ?w)) =
         [\<lparr>role = ''user'', msgText = ''help me''\<rparr>,
          \<lparr>role = ''assistant'', msgText =
             ''I am having trouble reaching the helper service right now. Please try again shortly.''\<rparr>]
     \<and> generateCalls (effects (snd (handleSend ?sv1 ?w))) = 1"
    unfolding t by (simp add: generateCalls_def)
  from handleSend_generation_call_fails [OF nonblank, of ?sv2 "''Please tell me more. NEEDS_SEARCH''",
      THEN conjunct2, rule_format, OF second]
  have B: "fst (handleSend ?sv2 ?w) = Inr ()
     \<and> messages (snd (handleSend ?sv2 ?w)) =
         [\<lparr>role = ''user'', msgText = ''help me''\<rparr>,
          \<lparr>role = ''assistant'', msgText = ''Please tell me more. NEEDS_SEARCH''\<rparr>]
     \<and> generateCalls (effects (snd (handleSend ?sv2 ?w))) = 2"
    unfolding t by (simp add: generateCalls_def)
  from A B show ?thesis by (rule conjI)
qed

text \<open>
  One run of \<open>generateFIRAndShare\<close> in which the generation service answers the text
  \<open>t\<close>: the document handed to the renderer is \<open>formattedHtml\<close> of \<open>t\<close> and of the
  date that the clock gives in that run.
\<close>

lemma generateFIRAndShare_run:
  assumes "geminiConfigured sv"
    and "generateContent sv (generateCalls (effects w)) (extractPrompt (messages w)) = Inr t"
  shows "\<exists>evs. generateFIRAndShare sv w =
           (Inr (), w\<lparr>isLoading := False,
              effects := effects w @
                [GenerateContent (extractPrompt (messages w)),
                 PrintToFile (formattedHtml t (today sv (Suc (length (effects w)))))] @ evs\<rparr>) \<and>
         generateCalls evs = 0"
proof -
  let ?doc = "formattedHtml t (today sv (Suc (length (effects w))))"
  show ?thesis
  proof (cases "printToFileAsync sv ?doc")
    case (Inl e)
    then have "generateFIRAndShare sv w =
           (Inr (), w\<lparr>isLoading := False,
              effects := effects w @
                [GenerateContent (extractPrompt (messages w)), PrintToFile ?doc] @
                [ConsoleWarn ''FIR generation error'', AlertShown ''Error'' ''Could not generate FIR.'']\<rparr>)"
      using assms by (simp add: generateFIRAndShare_def localeDateString_def callGemini_def action_defs)
    then show ?thesis
      by (intro exI [of _ "[ConsoleWarn ''FIR generation error'', AlertShown ''Error'' ''Could not generate FIR.'']"])
         (simp add: generateCalls_def)
  next
    case (Inr uri)
    show ?thesis
    proof (cases "platformOS sv = ''android'' \<or> platformOS sv = ''ios''")
      case False
      then have "generateFIRAndShare sv w =
           (Inr (), w\<lparr>isLoading := False,
              effects := effects w @
                [GenerateContent (extractPrompt (messages w)), PrintToFile ?doc] @
                [AlertShown ''FIR PDF saved'' (''File: '' @ uri)]\<rparr>)"
        using assms Inr by (simp add: generateFIRAndShare_def localeDateString_def callGemini_def action_defs)
      then show ?thesis
        by (intro exI [of _ "[AlertShown ''FIR PDF saved'' (''File: '' @ uri)]"]) (simp add: generateCalls_def)
    next
      case True
      show ?thesis
      proof (cases "shareAsync sv uri")
        case (Inl e)
        then have "generateFIRAndShare sv w =
           (Inr (), w\<lparr>isLoading := False,
              effects := effects w @
                [GenerateContent (extractPrompt (messages w)), PrintToFile ?doc] @
                [ShareAsync uri, ConsoleWarn ''FIR generation error'',
                 AlertShown ''Error'' ''Could not generate FIR.'']\<rparr>)"
          using assms \<open>printToFileAsync sv ?doc = Inr uri\<close> True
          by (simp add: generateFIRAndShare_def localeDateString_def callGemini_def action_defs)
        then show ?thesis
          by (intro exI [of _ "[ShareAsync uri, ConsoleWarn ''FIR generation error'', AlertShown ''Error'' ''Could not generate FIR.'']"])
             (simp add: generateCalls_def)
      next
        case (Inr u)
        then have "generateFIRAndShare sv w =
           (Inr (), w\<lparr>isLoading := False,
              effects := effects w @
                [GenerateContent (extractPrompt (messages w)), PrintToFile ?doc] @ [ShareAsync uri]\<rparr>)"
          using assms \<open>printToFileAsync sv ?doc = Inr uri\<close> True
          by (simp add: generateFIRAndShare_def localeDateString_def callGemini_def action_defs)
        then show ?thesis
          by (intro exI [of _ "[ShareAsync uri]"]) (simp add: generateCalls_def)
      qed
    qed
  qed
qed

end
